theory Spec2Isabelle
  imports Main "HOL-Library.Word" "HOL-Library.Sublist"
begin

unbundle bit_operations_syntax

section \<open>JavaScript values used by the indexing subsystem\<close>

text \<open>
  A JavaScript string is a sequence of UTF-16 code units; \<open>length\<close> counts code units,
  and the regular expressions of \<^verbatim>\<open>helpers/text.js\<close> (written without the \<open>u\<close> flag)
  work on code units as well. A \<open>Buffer\<close> is a sequence of bytes. A value that may be
  \<open>null\<close> or \<open>undefined\<close> is an \<open>option\<close>.
\<close>

type_synonym byte = "8 word"

type_synonym js_string = "16 word list"

definition js :: "string \<Rightarrow> js_string" where
  "js s = map of_char s"

datatype js_exception = TypeError | RangeError | ParseError

text \<open>
  \<open>String.prototype.trim\<close> removes the ECMAScript \<open>WhiteSpace\<close> and \<open>LineTerminator\<close>
  code units from both ends.
\<close>

definition isWhiteSpace :: "16 word \<Rightarrow> bool" where
  "isWhiteSpace c \<longleftrightarrow>
     c = 0x09 \<or> c = 0x0A \<or> c = 0x0B \<or> c = 0x0C \<or> c = 0x0D \<or> c = 0x20 \<or> c = 0xA0 \<or>
     c = 0x1680 \<or> (0x2000 \<le> c \<and> c \<le> 0x200A) \<or> c = 0x2028 \<or> c = 0x2029 \<or>
     c = 0x202F \<or> c = 0x205F \<or> c = 0x3000 \<or> c = 0xFEFF"

definition js_trim :: "js_string \<Rightarrow> js_string" where
  "js_trim s = rev (dropWhile isWhiteSpace (rev (dropWhile isWhiteSpace s)))"

text \<open>Truthiness of an optional string: \<open>null\<close>, \<open>undefined\<close> and \<open>''\<close> are falsy.\<close>

fun truthy :: "js_string option \<Rightarrow> bool" where
  "truthy None = False"
| "truthy (Some s) = (s \<noteq> [])"

section \<open>Buffer operations\<close>

text \<open>\<open>data[i]\<close>: \<open>undefined\<close> outside the buffer.\<close>

definition byte_at :: "byte list \<Rightarrow> nat \<Rightarrow> byte option" where
  "byte_at data i = (if i < length data then Some (data ! i) else None)"

text \<open>
  \<open>data[i]\<close> as an operand of \<open>|\<close> and \<open><<\<close>: \<open>undefined\<close> converts to 0.
\<close>

definition byte_or0 :: "byte list \<Rightarrow> nat \<Rightarrow> nat" where
  "byte_or0 data i = (case byte_at data i of None \<Rightarrow> 0 | Some b \<Rightarrow> unat b)"

text \<open>
  \<open>data.indexOf(value, byteOffset)\<close> for a byte value: the first position at or after
  the offset, \<open>None\<close> for \<open>-1\<close> (also when the offset is past the end).
\<close>

definition indexOf_byte :: "byte list \<Rightarrow> byte \<Rightarrow> nat \<Rightarrow> nat option" where
  "indexOf_byte data b from =
     (case dropWhile (\<lambda>x. x \<noteq> b) (drop from data) of
        [] \<Rightarrow> None
      | _ # _ \<Rightarrow> Some (from + length (takeWhile (\<lambda>x. x \<noteq> b) (drop from data))))"

text \<open>\<open>data.indexOf(needle)\<close> for a non-empty buffer \<open>needle\<close>, from offset 0.\<close>

fun indexOf_buffer :: "byte list \<Rightarrow> byte list \<Rightarrow> nat option" where
  "indexOf_buffer [] needle = (if needle = [] then Some 0 else None)"
| "indexOf_buffer (x # xs) needle =
     (if prefix needle (x # xs) then Some 0
      else map_option Suc (indexOf_buffer xs needle))"

text \<open>\<open>data.slice(start, end)\<close> for non-negative bounds; both are clamped to the length.\<close>

definition slice :: "byte list \<Rightarrow> nat \<Rightarrow> nat \<Rightarrow> byte list" where
  "slice data start end = drop start (take end data)"

text \<open>
  \<open>readUInt16LE\<close> and \<open>readUInt32LE\<close> throw a \<open>RangeError\<close> when the bytes to read do
  not lie inside the buffer.
\<close>

definition readUInt16LE :: "byte list \<Rightarrow> nat \<Rightarrow> js_exception + nat" where
  "readUInt16LE data off =
     (if off + 2 \<le> length data
      then Inr (unat (data ! off) + 256 * unat (data ! (off + 1)))
      else Inl RangeError)"

definition readUInt32LE :: "byte list \<Rightarrow> nat \<Rightarrow> js_exception + nat" where
  "readUInt32LE data off =
     (if off + 4 \<le> length data
      then Inr (unat (data ! off) + 256 * unat (data ! (off + 1))
                + 65536 * unat (data ! (off + 2)) + 16777216 * unat (data ! (off + 3)))
      else Inl RangeError)"

subsection \<open>Decoding UTF-8\<close>

text \<open>
  \<open>buf.toString('utf8')\<close> decodes with replacement: every maximal invalid or truncated
  part of the input becomes one U+FFFD, and decoding resumes at the byte that did not
  fit. Code points above U+FFFF become a surrogate pair.
\<close>

definition is_cont :: "byte \<Rightarrow> bool" where
  "is_cont b \<longleftrightarrow> 0x80 \<le> b \<and> b \<le> 0xBF"

definition cont_bits :: "byte \<Rightarrow> nat" where
  "cont_bits b = unat b - 0x80"

text \<open>The range allowed for the second byte of a three- or four-byte sequence.\<close>

definition second_ok :: "byte \<Rightarrow> byte \<Rightarrow> bool" where
  "second_ok lead b \<longleftrightarrow>
     (if lead = 0xE0 then 0xA0 \<le> b \<and> b \<le> 0xBF
      else if lead = 0xED then 0x80 \<le> b \<and> b \<le> 0x9F
      else if lead = 0xF0 then 0x90 \<le> b \<and> b \<le> 0xBF
      else if lead = 0xF4 then 0x80 \<le> b \<and> b \<le> 0x8F
      else is_cont b)"

definition code_units :: "nat \<Rightarrow> js_string" where
  "code_units cp =
     (if cp < 0x10000 then [of_nat cp]
      else [of_nat (0xD800 + (cp - 0x10000) div 1024),
            of_nat (0xDC00 + (cp - 0x10000) mod 1024)])"

definition replacement :: "16 word" where
  "replacement = 0xFFFD"

fun utf8_decode :: "byte list \<Rightarrow> js_string" where
  "utf8_decode [] = []"
| "utf8_decode (b # bs) =
     (if b < 0x80 then of_nat (unat b) # utf8_decode bs
      else if 0xC2 \<le> b \<and> b \<le> 0xDF then
        (case bs of
           [] \<Rightarrow> [replacement]
         | c1 # r1 \<Rightarrow>
             if is_cont c1
             then code_units ((unat b - 0xC0) * 64 + cont_bits c1) @ utf8_decode r1
             else replacement # utf8_decode bs)
      else if 0xE0 \<le> b \<and> b \<le> 0xEF then
        (case bs of
           [] \<Rightarrow> [replacement]
         | c1 # r1 \<Rightarrow>
             if \<not> second_ok b c1 then replacement # utf8_decode bs
             else (case r1 of
                     [] \<Rightarrow> [replacement]
                   | c2 # r2 \<Rightarrow>
                       if is_cont c2
                       then code_units ((unat b - 0xE0) * 4096 + cont_bits c1 * 64 + cont_bits c2)
                            @ utf8_decode r2
                       else replacement # utf8_decode r1))
      else if 0xF0 \<le> b \<and> b \<le> 0xF4 then
        (case bs of
           [] \<Rightarrow> [replacement]
         | c1 # r1 \<Rightarrow>
             if \<not> second_ok b c1 then replacement # utf8_decode bs
             else (case r1 of
                     [] \<Rightarrow> [replacement]
                   | c2 # r2 \<Rightarrow>
                       if \<not> is_cont c2 then replacement # utf8_decode r1
                       else (case r2 of
                               [] \<Rightarrow> [replacement]
                             | c3 # r3 \<Rightarrow>
                                 if is_cont c3
                                 then code_units ((unat b - 0xF0) * 262144 + cont_bits c1 * 4096
                                                  + cont_bits c2 * 64 + cont_bits c3)
                                      @ utf8_decode r3
                                 else replacement # utf8_decode r2)))
      else replacement # utf8_decode bs)"

section \<open>Text helpers (\<^verbatim>\<open>server/helpers/text.js\<close>)\<close>

subsection \<open>\<open>cleanExtractedText\<close>\<close>

text \<open>The character class \<^verbatim>\<open>[\ufffc\ufffd\x00-\x1f]\<close> of the two anchored replacements.\<close>

definition isJunk :: "16 word \<Rightarrow> bool" where
  "isJunk c \<longleftrightarrow> c = 0xFFFC \<or> c = 0xFFFD \<or> c \<le> 0x1F"

text \<open>
  Leading junk, trailing junk, every remaining U+FFFC, then \<open>trim\<close>. The guard
  \<^verbatim>\<open>if (!text) return ''\<close> returns the empty string for the empty string.
\<close>

definition cleanExtractedText :: "js_string \<Rightarrow> js_string" where
  "cleanExtractedText text =
     (if text = [] then []
      else js_trim (filter (\<lambda>c. c \<noteq> 0xFFFC)
             (rev (dropWhile isJunk (rev (dropWhile isJunk text))))))"

subsection \<open>\<open>isMetadataString\<close>\<close>

text \<open>
  The four patterns \<^verbatim>\<open>/^NS[A-Z]/\<close>, \<^verbatim>\<open>/^\$[a-z]/\<close>, \<^verbatim>\<open>/^__kIM/\<close> and
  \<^verbatim>\<open>/^com\.apple/\<close>.
\<close>

definition isMetadataString :: "js_string \<Rightarrow> bool" where
  "isMetadataString str \<longleftrightarrow>
     (case drop 2 str of
        [] \<Rightarrow> False
      | c # _ \<Rightarrow> take 2 str = js ''NS'' \<and> 0x41 \<le> c \<and> c \<le> 0x5A)
     \<or> (case str of
          d # c # _ \<Rightarrow> d = 0x24 \<and> 0x61 \<le> c \<and> c \<le> 0x7A
        | _ \<Rightarrow> False)
     \<or> prefix (js ''__kIM'') str
     \<or> prefix (js ''com.apple'') str"

subsection \<open>The parsed property list\<close>

text \<open>
  The values \<^verbatim>\<open>bplist-parser\<close> produces. A dictionary is a JavaScript object, an
  association list here (keys are unique; a UID or a date is an object without the keys
  the code reads). The parser itself is a library outside the repository: the extractor
  takes it as the parameter \<open>parseBuffer\<close>, which returns the list of root objects or
  throws.
\<close>

datatype plist =
    PlNull
  | PlBool bool
  | PlNumber int
  | PlString js_string
  | PlData "byte list"
  | PlArray "plist list"
  | PlDict "(js_string \<times> plist) list"

type_synonym parser = "byte list \<Rightarrow> js_exception + plist list"

fun plist_truthy :: "plist \<Rightarrow> bool" where
  "plist_truthy PlNull = False"
| "plist_truthy (PlBool b) = b"
| "plist_truthy (PlNumber n) = (n \<noteq> 0)"
| "plist_truthy (PlString s) = (s \<noteq> [])"
| "plist_truthy (PlData d) = True"
| "plist_truthy (PlArray xs) = True"
| "plist_truthy (PlDict kvs) = True"

text \<open>\<open>obj[key]\<close> for the keys the code reads: \<open>undefined\<close> unless \<open>obj\<close> is a dictionary.\<close>

fun get_property :: "plist \<Rightarrow> js_string \<Rightarrow> plist option" where
  "get_property (PlDict kvs) key = map_of kvs key"
| "get_property _ key = None"

subsection \<open>\<open>extractTextFromParsedPlist\<close>\<close>

text \<open>
  The loop over \<^verbatim>\<open>$objects\<close>. A string object is returned when its cleaned form has more
  than one code unit and is not metadata. An object with a truthy \<^verbatim>\<open>NS.string\<close> is
  cleaned; \<open>cleanExtractedText\<close> calls \<open>text.replace\<close>, which throws a \<open>TypeError\<close> when
  the value is truthy but not a string.
\<close>

fun scan_objects :: "plist list \<Rightarrow> js_exception + js_string option" where
  "scan_objects [] = Inr None"
| "scan_objects (obj # rest) =
     (case obj of
        PlString s \<Rightarrow>
          (if s \<noteq> [] \<and> length (cleanExtractedText s) > 1
                \<and> \<not> isMetadataString (cleanExtractedText s)
           then Inr (Some (cleanExtractedText s))
           else scan_objects rest)
      | PlDict kvs \<Rightarrow>
          (case map_of kvs (js ''NS.string'') of
             None \<Rightarrow> scan_objects rest
           | Some v \<Rightarrow>
               (if \<not> plist_truthy v then scan_objects rest
                else (case v of
                        PlString s \<Rightarrow>
                          (if length (cleanExtractedText s) > 0
                           then Inr (Some (cleanExtractedText s))
                           else scan_objects rest)
                      | _ \<Rightarrow> Inl TypeError)))
      | _ \<Rightarrow> scan_objects rest)"

definition extractTextFromParsedPlist :: "plist \<Rightarrow> js_exception + js_string option" where
  "extractTextFromParsedPlist pl =
     (if \<not> plist_truthy pl then Inr None
      else (case get_property pl (js ''$objects'') of
              Some (PlArray objects) \<Rightarrow> scan_objects objects
            | _ \<Rightarrow> Inr None))"

subsection \<open>\<open>extractTextFromAttributedBody\<close>\<close>

definition nsStringMarker :: "byte list" where
  "nsStringMarker = map of_char ''NSString''"

definition PLUS_BYTE :: byte where
  "PLUS_BYTE = 0x2b"

definition END_MARKER :: byte where
  "END_MARKER = 0x86"

text \<open>
  The \<open>while\<close> loop of the last branch of the length encoding: skip the bytes below
  \<open>0x20\<close>, stopping at the end of the buffer.
\<close>

definition skip_controls :: "byte list \<Rightarrow> nat \<Rightarrow> nat" where
  "skip_controls data textStart =
     textStart + length (takeWhile (\<lambda>b. b < 0x20) (drop textStart data))"

text \<open>
  The length encoding read at \<open>textStart = plusIdx + 1\<close>; the result is
  \<open>(messageLength, textStart)\<close> after the branch. When \<open>firstByte\<close> is \<open>undefined\<close> (the
  marker is the last byte) every comparison is false and the last branch runs.
\<close>

definition parse_length :: "byte list \<Rightarrow> nat \<Rightarrow> js_exception + nat \<times> nat" where
  "parse_length data textStart =
     (case byte_at data textStart of
        None \<Rightarrow> Inr (0, skip_controls data (textStart + 1))
      | Some firstByte \<Rightarrow>
          if firstByte < 0x80 then Inr (unat firstByte, textStart + 1)
          else if firstByte = 0x81 then
            (case readUInt16LE data (textStart + 1) of
               Inl e \<Rightarrow> Inl e
             | Inr n \<Rightarrow> Inr (n, textStart + 3))
          else if firstByte = 0x82 then
            Inr (byte_or0 data (textStart + 1)
                   OR push_bit 8 (byte_or0 data (textStart + 2))
                   OR push_bit 16 (byte_or0 data (textStart + 3)),
                 textStart + 4)
          else if firstByte = 0x83 then
            (case readUInt32LE data (textStart + 1) of
               Inl e \<Rightarrow> Inl e
             | Inr n \<Rightarrow> Inr (n, textStart + 5))
          else Inr (0, skip_controls data (textStart + 1)))"

text \<open>\<open>textEnd\<close>, from \<open>textStart\<close>, \<open>messageLength\<close> and the position of the end marker.\<close>

definition text_end :: "byte list \<Rightarrow> nat \<Rightarrow> nat \<Rightarrow> nat" where
  "text_end data textStart messageLength =
     (let bound = (case indexOf_byte data END_MARKER textStart of
                     Some markerIdx \<Rightarrow> markerIdx
                   | None \<Rightarrow> length data)
      in if messageLength > 0 then min (textStart + messageLength) bound else bound)"

text \<open>
  The fallback path up to the slice: \<open>Some (textStart, messageLength, textEnd)\<close> when the
  class name and, within 80 bytes of it, the \<open>+\<close> byte are found.
\<close>

definition fallback_bounds :: "byte list \<Rightarrow> js_exception + (nat \<times> nat \<times> nat) option" where
  "fallback_bounds data =
     (case indexOf_buffer data nsStringMarker of
        None \<Rightarrow> Inr None
      | Some idx \<Rightarrow>
          (case indexOf_byte data PLUS_BYTE (idx + length nsStringMarker) of
             None \<Rightarrow> Inr None
           | Some plusIdx \<Rightarrow>
               if plusIdx < idx + 80 then
                 (case parse_length data (plusIdx + 1) of
                    Inl e \<Rightarrow> Inl e
                  | Inr (messageLength, textStart) \<Rightarrow>
                      Inr (Some (textStart, messageLength,
                                 text_end data textStart messageLength)))
               else Inr None))"

definition fallback_text :: "byte list \<Rightarrow> js_exception + js_string option" where
  "fallback_text data =
     (case fallback_bounds data of
        Inl e \<Rightarrow> Inl e
      | Inr None \<Rightarrow> Inr None
      | Inr (Some (textStart, messageLength, textEnd)) \<Rightarrow>
          (let text = cleanExtractedText (utf8_decode (slice data textStart textEnd))
           in if length text > 0 then Inr (Some text) else Inr None))"

text \<open>
  The structured path with its own \<open>try\<close>/\<open>catch\<close>: an exception of the parser or of
  \<open>extractTextFromParsedPlist\<close> is swallowed and the fallback path runs.
\<close>

definition structured_text :: "parser \<Rightarrow> byte list \<Rightarrow> js_string option" where
  "structured_text parseBuffer data =
     (case parseBuffer data of
        Inl e \<Rightarrow> None
      | Inr [] \<Rightarrow> None
      | Inr (root # _) \<Rightarrow>
          (case extractTextFromParsedPlist root of
             Inl e \<Rightarrow> None
           | Inr text \<Rightarrow> if truthy text then text else None))"

text \<open>The body of the outer \<open>try\<close> block.\<close>

definition extract_body :: "parser \<Rightarrow> byte list \<Rightarrow> js_exception + js_string option" where
  "extract_body parseBuffer data =
     (case structured_text parseBuffer data of
        Some text \<Rightarrow> Inr (Some text)
      | None \<Rightarrow> fallback_text data)"

text \<open>
  The function: \<open>null\<close> for a missing buffer, and the outer \<open>catch\<close> turns every
  exception of the body into \<open>null\<close>. The result type keeps the exception case, so that
  ``never throws'' is a statement about the function.
\<close>

definition extractTextFromAttributedBody ::
    "parser \<Rightarrow> byte list option \<Rightarrow> js_exception + js_string option" where
  "extractTextFromAttributedBody parseBuffer buffer =
     (case buffer of
        None \<Rightarrow> Inr None
      | Some data \<Rightarrow>
          (case extract_body parseBuffer data of
             Inl e \<Rightarrow> Inr None
           | Inr r \<Rightarrow> Inr r))"

subsection \<open>\<open>getMessageText\<close>\<close>

text \<open>
  The row a text is resolved for: the columns of the \<^verbatim>\<open>SELECT\<close> in \<open>indexNewMessages\<close>
  (\<open>getMessageText\<close> reads \<open>text\<close> and \<open>attributedBody\<close> only). A \<open>Buffer\<close> is truthy even
  when it is empty, so \<open>attributedBody\<close> is truthy exactly when it is not \<open>null\<close>.
\<close>

record source_row =
  message_id :: int
  row_text :: "js_string option"
  attributedBody :: "byte list option"
  row_date :: int
  chat_id :: int

definition getMessageText :: "parser \<Rightarrow> source_row \<Rightarrow> js_exception + js_string option" where
  "getMessageText parseBuffer row =
     (if (case row_text row of None \<Rightarrow> False | Some s \<Rightarrow> s \<noteq> [] \<and> js_trim s \<noteq> [])
      then Inr (row_text row)
      else if attributedBody row \<noteq> None
      then extractTextFromAttributedBody parseBuffer (attributedBody row)
      else Inr None)"

section \<open>The source store (\<^verbatim>\<open>chat.db\<close>, read only)\<close>

record message_row =
  m_ROWID :: int
  m_text :: "js_string option"
  m_attributedBody :: "byte list option"
  m_date :: int

record cmj_row =
  cmj_chat_id :: int
  cmj_message_id :: int

record handle_row =
  h_ROWID :: int
  h_id :: js_string

record chj_row =
  chj_chat_id :: int
  chj_handle_id :: int

record chat_db =
  message :: "message_row list"
  chat_message_join :: "cmj_row list"
  handle :: "handle_row list"
  chat_handle_join :: "chj_row list"

text \<open>\<^verbatim>\<open>FROM message m JOIN chat_message_join cmj ON m.ROWID = cmj.message_id\<close>\<close>

definition joined_rows :: "chat_db \<Rightarrow> source_row list" where
  "joined_rows src =
     concat (map (\<lambda>m. map (\<lambda>j. \<lparr> message_id = m_ROWID m, row_text = m_text m,
                                  attributedBody = m_attributedBody m, row_date = m_date m,
                                  chat_id = cmj_chat_id j \<rparr>)
                            (filter (\<lambda>j. m_ROWID m = cmj_message_id j) (chat_message_join src)))
                 (message src))"

text \<open>\<^verbatim>\<open>LIMIT n\<close>: a negative limit is no limit.\<close>

definition sql_limit :: "int \<Rightarrow> 'a list \<Rightarrow> 'a list" where
  "sql_limit n xs = (if n < 0 then xs else take (nat n) xs)"

text \<open>
  The query of \<open>indexNewMessages\<close>:
  \<^verbatim>\<open>WHERE m.ROWID > ? ORDER BY m.ROWID ASC LIMIT ?\<close> with \<open>[lastId, batchSize]\<close>.
\<close>

definition select_messages :: "chat_db \<Rightarrow> int \<Rightarrow> int \<Rightarrow> source_row list" where
  "select_messages src lastId batchSize =
     sql_limit batchSize
       (sort_key message_id (filter (\<lambda>r. message_id r > lastId) (joined_rows src)))"

section \<open>The index store (\<^verbatim>\<open>search_index.db\<close>)\<close>

text \<open>
  The table \<open>message_text\<close> (primary key \<open>message_id\<close>) and the row of \<open>index_metadata\<close>
  with the key \<^verbatim>\<open>last_message_id\<close>. The value column holds \<open>String(messageId)\<close> and is
  read back with \<open>parseInt\<close>; the model keeps the integer the decimal string denotes.
  \<open>initializeSchema\<close> creates both tables with \<^verbatim>\<open>IF NOT EXISTS\<close>: the model starts with
  the schema in place.
\<close>

record index_entry =
  e_message_id :: int
  e_text :: js_string
  e_date :: int
  e_chat_id :: int

record index_db =
  message_text :: "index_entry list"
  last_message_id :: "int option"

text \<open>
  The connection: \<open>current\<close> is what statements on the connection read and write,
  \<open>snapshot\<close> is the state a \<^verbatim>\<open>ROLLBACK\<close> restores while a transaction is open.
\<close>

record index_conn =
  current :: index_db
  snapshot :: "index_db option"

datatype error = SqliteError | JsError js_exception

type_synonym stmt = "index_conn \<Rightarrow> error + index_conn"

definition begin_transaction :: stmt where
  "begin_transaction c =
     (if snapshot c = None then Inr (c\<lparr>snapshot := Some (current c)\<rparr>) else Inl SqliteError)"

definition commit :: stmt where
  "commit c = (if snapshot c = None then Inl SqliteError else Inr (c\<lparr>snapshot := None\<rparr>))"

definition rollback :: "index_conn \<Rightarrow> index_conn" where
  "rollback c = (case snapshot c of None \<Rightarrow> c | Some s \<Rightarrow> \<lparr>current = s, snapshot = None\<rparr>)"

text \<open>\<^verbatim>\<open>INSERT OR REPLACE INTO message_text\<close>: a row with the same key is replaced.\<close>

definition upsert_entry :: "index_entry \<Rightarrow> index_entry list \<Rightarrow> index_entry list" where
  "upsert_entry e tbl = filter (\<lambda>r. e_message_id r \<noteq> e_message_id e) tbl @ [e]"

definition insert_or_replace :: "index_entry \<Rightarrow> stmt" where
  "insert_or_replace e c =
     Inr (c\<lparr>current := (current c)\<lparr>message_text := upsert_entry e (message_text (current c))\<rparr>\<rparr>)"

definition setLastIndexedId :: "int \<Rightarrow> stmt" where
  "setLastIndexedId messageId c =
     Inr (c\<lparr>current := (current c)\<lparr>last_message_id := Some messageId\<rparr>\<rparr>)"

definition getLastIndexedId :: "index_conn \<Rightarrow> int" where
  "getLastIndexedId c = (case last_message_id (current c) of None \<Rightarrow> 0 | Some v \<Rightarrow> v)"

text \<open>
  \<open>indexDbRun\<close> with fault injection: \<open>fault = Some k\<close> makes the \<open>k\<close>-th statement the
  call sends through \<open>indexDbRun\<close> fail with an I/O error and no effect
  (\<^verbatim>\<open>BEGIN TRANSACTION\<close> is statement 0). The \<^verbatim>\<open>ROLLBACK\<close> of the \<open>catch\<close> block is not
  subject to the fault.
\<close>

definition indexDbRun :: "nat option \<Rightarrow> nat \<Rightarrow> stmt \<Rightarrow> index_conn \<Rightarrow> (error + unit) \<times> index_conn" where
  "indexDbRun fault k st c =
     (if fault = Some k then (Inl SqliteError, c)
      else (case st c of Inl e \<Rightarrow> (Inl e, c) | Inr c' \<Rightarrow> (Inr (), c')))"

section \<open>The incremental indexer (\<^verbatim>\<open>server/services/searchIndex.js\<close>)\<close>

text \<open>
  Lines 152 to 155: the text column, or the extractor when the column is falsy or trims
  to fewer than two code units and the row has a blob.
\<close>

definition resolve_text :: "parser \<Rightarrow> source_row \<Rightarrow> js_exception + js_string option" where
  "resolve_text parseBuffer msg =
     (if (case row_text msg of None \<Rightarrow> True | Some s \<Rightarrow> s = [] \<or> length (js_trim s) < 2)
         \<and> attributedBody msg \<noteq> None
      then extractTextFromAttributedBody parseBuffer (attributedBody msg)
      else Inr (row_text msg))"

text \<open>The text that is written for a resolved value: \<^verbatim>\<open>if (text && text.trim())\<close>.\<close>

definition text_to_store :: "js_string option \<Rightarrow> js_string option" where
  "text_to_store text =
     (case text of
        None \<Rightarrow> None
      | Some s \<Rightarrow> if s \<noteq> [] \<and> js_trim s \<noteq> [] then Some (js_trim s) else None)"

text \<open>
  The \<open>for\<close> loop of the batch, from statement number \<open>k\<close>; the result is \<open>maxId\<close> and the
  number of the next statement. An exception leaves the loop with the connection as it is
  at that point.
\<close>

fun index_rows ::
    "parser \<Rightarrow> nat option \<Rightarrow> source_row list \<Rightarrow> int \<Rightarrow> nat \<Rightarrow> index_conn
       \<Rightarrow> (error + int \<times> nat) \<times> index_conn" where
  "index_rows parseBuffer fault [] maxId k c = (Inr (maxId, k), c)"
| "index_rows parseBuffer fault (msg # msgs) maxId k c =
     (case resolve_text parseBuffer msg of
        Inl e \<Rightarrow> (Inl (JsError e), c)
      | Inr text \<Rightarrow>
          (case text_to_store text of
             Some trimmed \<Rightarrow>
               (case indexDbRun fault k
                       (insert_or_replace \<lparr> e_message_id = message_id msg, e_text = trimmed,
                                            e_date = row_date msg, e_chat_id = chat_id msg \<rparr>) c of
                  (Inl e, c') \<Rightarrow> (Inl e, c')
                | (Inr u, c') \<Rightarrow>
                    index_rows parseBuffer fault msgs (max maxId (message_id msg)) (Suc k) c')
           | None \<Rightarrow> index_rows parseBuffer fault msgs (max maxId (message_id msg)) k c))"

text \<open>The \<open>try\<close> block: the loop, the cursor, the commit.\<close>

definition try_block ::
    "parser \<Rightarrow> nat option \<Rightarrow> source_row list \<Rightarrow> int \<Rightarrow> index_conn \<Rightarrow> (error + nat) \<times> index_conn" where
  "try_block parseBuffer fault messages lastId c =
     (case index_rows parseBuffer fault messages lastId 1 c of
        (Inl e, c1) \<Rightarrow> (Inl e, c1)
      | (Inr (maxId, k), c1) \<Rightarrow>
          (case indexDbRun fault k (setLastIndexedId maxId) c1 of
             (Inl e, c2) \<Rightarrow> (Inl e, c2)
           | (Inr u, c2) \<Rightarrow>
               (case indexDbRun fault (Suc k) commit c2 of
                  (Inl e, c3) \<Rightarrow> (Inl e, c3)
                | (Inr u, c3) \<Rightarrow> (Inr (length messages), c3))))"

definition indexNewMessages ::
    "parser \<Rightarrow> nat option \<Rightarrow> chat_db \<Rightarrow> int \<Rightarrow> index_conn \<Rightarrow> (error + nat) \<times> index_conn" where
  "indexNewMessages parseBuffer fault src batchSize c =
     (let lastId = getLastIndexedId c;
          messages = select_messages src lastId batchSize
      in if messages = [] then (Inr 0, c)
         else (case indexDbRun fault 0 begin_transaction c of
                 (Inl e, c0) \<Rightarrow> (Inl e, c0)
               | (Inr u, c0) \<Rightarrow>
                   (case try_block parseBuffer fault messages lastId c0 of
                      (Inl e, c1) \<Rightarrow> (Inl e, rollback c1)
                    | (Inr n, c1) \<Rightarrow> (Inr n, c1))))"

text \<open>
  \<open>buildIndex\<close>: \<open>indexNewMessages(5000)\<close> until a call returns fewer than 5000 rows.
  \<open>faults\<close> gives the fault of each call by its number; an exception of a call leaves
  the loop. The progress callback and the log lines have no effect on the stores. The
  loop has no bound of its own: that it terminates is proved below, from the number of
  rows left above the cursor.
\<close>

function buildIndex_loop ::
    "parser \<Rightarrow> (nat \<Rightarrow> nat option) \<Rightarrow> chat_db \<Rightarrow> nat \<Rightarrow> nat \<Rightarrow> index_conn
       \<Rightarrow> (error + nat) \<times> index_conn" where
  "buildIndex_loop parseBuffer faults src batch totalIndexed c =
     (case indexNewMessages parseBuffer (faults batch) src 5000 c of
        (Inl e, c') \<Rightarrow> (Inl e, c')
      | (Inr indexed, c') \<Rightarrow>
          if indexed < 5000 then (Inr (totalIndexed + indexed), c')
          else buildIndex_loop parseBuffer faults src (Suc batch) (totalIndexed + indexed) c')"
  by pat_completeness auto

definition buildIndex ::
    "parser \<Rightarrow> (nat \<Rightarrow> nat option) \<Rightarrow> chat_db \<Rightarrow> index_conn \<Rightarrow> (error + nat) \<times> index_conn" where
  "buildIndex parseBuffer faults src c = buildIndex_loop parseBuffer faults src 0 0 c"

section \<open>The query engine (\<open>searchIndex\<close> and \<^verbatim>\<open>routes/search.js\<close>)\<close>

subsection \<open>\<open>LIKE\<close>\<close>

text \<open>
  SQLite compares text by characters: the code units of a string are read as code
  points, a surrogate pair as one code point and a lone surrogate as U+FFFD.
\<close>

fun code_points :: "js_string \<Rightarrow> nat list" where
  "code_points [] = []"
| "code_points [c] = [if 0xD800 \<le> c \<and> c \<le> 0xDFFF then 0xFFFD else unat c]"
| "code_points (c # d # cs) =
     (if 0xD800 \<le> c \<and> c \<le> 0xDBFF \<and> 0xDC00 \<le> d \<and> d \<le> 0xDFFF
      then (0x10000 + (unat c - 0xD800) * 1024 + (unat d - 0xDC00)) # code_points cs
      else (if 0xD800 \<le> c \<and> c \<le> 0xDFFF then 0xFFFD else unat c) # code_points (d # cs))"

text \<open>The built-in \<open>LIKE\<close> folds the case of the ASCII letters only.\<close>

definition ascii_lower :: "nat \<Rightarrow> nat" where
  "ascii_lower c = (if 0x41 \<le> c \<and> c \<le> 0x5A then c + 32 else c)"

text \<open>
  \<open>like_match pattern text\<close>: \<open>%\<close> matches any sequence of characters, \<open>_\<close> any single
  character, every other character itself up to ASCII case. The query has no
  \<^verbatim>\<open>ESCAPE\<close> clause.
\<close>

fun like_match :: "nat list \<Rightarrow> nat list \<Rightarrow> bool" where
  "like_match [] t = (t = [])"
| "like_match (p # ps) t =
     (if p = 0x25 then
        like_match ps t \<or> (case t of [] \<Rightarrow> False | c # cs \<Rightarrow> like_match (p # ps) cs)
      else (case t of
              [] \<Rightarrow> False
            | c # cs \<Rightarrow> (p = 0x5F \<or> ascii_lower p = ascii_lower c) \<and> like_match ps cs))"

text \<open>
  \<open>LIKE\<close> reads its two operands as zero-terminated strings: the pattern and the text
  end before their first U+0000.
\<close>

definition c_string :: "nat list \<Rightarrow> nat list" where
  "c_string cs = takeWhile (\<lambda>c. c \<noteq> 0) cs"

definition sql_like :: "js_string \<Rightarrow> js_string \<Rightarrow> bool" where
  "sql_like text pattern =
     like_match (c_string (code_points pattern)) (c_string (code_points text))"

subsection \<open>\<open>searchIndex\<close>\<close>

text \<open>
  \<^verbatim>\<open>WHERE text LIKE ? ORDER BY date DESC LIMIT ?\<close> with the pattern \<^verbatim>\<open>`%${query}%`\<close>.
  The table is stored in the order of its primary key \<open>message_id\<close>, and rows of equal
  date come back in that order.
\<close>

definition searchIndex :: "index_db \<Rightarrow> js_string \<Rightarrow> int \<Rightarrow> index_entry list" where
  "searchIndex db query limit =
     sql_limit limit
       (sort_key (\<lambda>e. - e_date e)
          (filter (\<lambda>e. sql_like (e_text e) (js ''%'' @ query @ js ''%''))
             (sort_key e_message_id (message_text db))))"

subsection \<open>The route \<^verbatim>\<open>GET /search\<close>\<close>

definition DEFAULT_SEARCH_PAGE_SIZE :: int where
  "DEFAULT_SEARCH_PAGE_SIZE = 20"

definition MAX_SEARCH_SCAN_LIMIT :: int where
  "MAX_SEARCH_SCAN_LIMIT = 10000"

definition MAC_EPOCH_MS :: int where
  "MAC_EPOCH_MS = 978307200000"

text \<open>\<open>Math.floor(macTime / 1000000) + MAC_EPOCH_MS\<close>\<close>

definition convertMacTime :: "int \<Rightarrow> int" where
  "convertMacTime macTime = macTime div 1000000 + MAC_EPOCH_MS"

text \<open>\<open>Array.prototype.slice(start, end)\<close>: a negative bound counts from the end.\<close>

definition js_slice :: "'a list \<Rightarrow> int \<Rightarrow> int \<Rightarrow> 'a list" where
  "js_slice xs start end =
     (let n = int (length xs);
          k = (if start < 0 then max (n + start) 0 else min start n);
          final = (if end < 0 then max (n + end) 0 else min end n)
      in take (nat (final - k)) (drop (nat k) xs))"

text \<open>
  The statements the route sends to the two databases. \<open>fails\<close> tells which of them
  throw; the route returns its response and the list of the statements it sent.
\<close>

datatype db_call =
    IndexSearch js_string int
  | ChatIdsOf "js_string list"
  | ContactOfChat int

text \<open>
  The contact store is a collaborator outside the query engine: \<open>contactGroupMap\<close> gives
  the identifiers of a contact group, \<open>getDisplayName\<close> the name shown for an identifier.
\<close>

record search_env =
  index :: index_db
  chat :: chat_db
  contactGroupMap :: "js_string \<Rightarrow> js_string list option"
  getDisplayName :: "js_string \<Rightarrow> js_string"
  fails :: "db_call \<Rightarrow> bool"

record search_result =
  r_message_id :: int
  r_text :: js_string
  conversation_id :: int
  contact_identifier :: js_string
  r_date :: int
  display_name :: js_string

record search_json =
  j_results :: "search_result list"
  j_page :: int
  j_limit :: int
  j_total :: nat

datatype http_response = Json search_json | Status500

text \<open>
  \<^verbatim>\<open>SELECT DISTINCT chj.chat_id FROM chat_handle_join chj JOIN handle h
  ON chj.handle_id = h.ROWID WHERE h.id IN (...)\<close>
\<close>

definition chat_ids_of :: "chat_db \<Rightarrow> js_string list \<Rightarrow> int list" where
  "chat_ids_of db identifiers =
     remdups (concat (map (\<lambda>j. map (\<lambda>h. chj_chat_id j)
                                   (filter (\<lambda>h. chj_handle_id j = h_ROWID h \<and> h_id h \<in> set identifiers)
                                           (handle db)))
                          (chat_handle_join db)))"

text \<open>
  \<^verbatim>\<open>SELECT h.id FROM chat_handle_join chj JOIN handle h ON chj.handle_id = h.ROWID
  WHERE chj.chat_id = ? LIMIT 1\<close>, then \<^verbatim>\<open>contactRow[0]?.contact_identifier || 'Unknown'\<close>.
\<close>

definition contact_of_chat :: "chat_db \<Rightarrow> int \<Rightarrow> js_string" where
  "contact_of_chat db c =
     (case concat (map (\<lambda>j. map h_id (filter (\<lambda>h. chj_handle_id j = h_ROWID h) (handle db)))
                       (filter (\<lambda>j. chj_chat_id j = c) (chat_handle_join db))) of
        [] \<Rightarrow> js ''Unknown''
      | ident # _ \<Rightarrow> if ident = [] then js ''Unknown'' else ident)"

text \<open>
  The loop over \<open>contactIds\<close> that fills \<open>allowedChatIds\<close>: a contact without a group is
  skipped, a failing query leaves the loop.
\<close>

fun collect_chat_ids ::
    "search_env \<Rightarrow> js_string list \<Rightarrow> int list \<Rightarrow> db_call list \<Rightarrow> int list option \<times> db_call list" where
  "collect_chat_ids env [] allowedChatIds log = (Some allowedChatIds, log)"
| "collect_chat_ids env (contactId # rest) allowedChatIds log =
     (case contactGroupMap env contactId of
        None \<Rightarrow> collect_chat_ids env rest allowedChatIds log
      | Some identifiers \<Rightarrow>
          if fails env (ChatIdsOf identifiers) then (None, log @ [ChatIdsOf identifiers])
          else collect_chat_ids env rest
                 (allowedChatIds @ chat_ids_of (chat env) identifiers)
                 (log @ [ChatIdsOf identifiers]))"

definition enrich :: "search_env \<Rightarrow> index_entry \<Rightarrow> search_result" where
  "enrich env row =
     \<lparr> r_message_id = e_message_id row,
       r_text = e_text row,
       conversation_id = e_chat_id row,
       contact_identifier = contact_of_chat (chat env) (e_chat_id row),
       r_date = convertMacTime (e_date row),
       display_name = getDisplayName env (contact_of_chat (chat env) (e_chat_id row)) \<rparr>"

text \<open>
  The handler. \<open>q\<close>, \<open>limit_param\<close> and \<open>page_param\<close> are the query parameters, the two
  numbers after \<open>parseInt\<close> (\<open>None\<close> when absent or not a number); \<open>contactIds\<close> is the
  \<open>contacts\<close> parameter split at the commas, empty when the parameter is absent. The
  filter that \<open>buildContactFilter\<close> builds is passed to \<open>searchIndex\<close>, which does not
  use it.
\<close>

definition search_route ::
    "search_env \<Rightarrow> js_string option \<Rightarrow> int option \<Rightarrow> int option \<Rightarrow> js_string list
       \<Rightarrow> http_response \<times> db_call list" where
  "search_route env q limit_param page_param contactIds =
     (let query = (case q of None \<Rightarrow> [] | Some s \<Rightarrow> s);
          limit = (case limit_param of
                     None \<Rightarrow> DEFAULT_SEARCH_PAGE_SIZE
                   | Some n \<Rightarrow> if n = 0 then DEFAULT_SEARCH_PAGE_SIZE else n);
          page = (case page_param of None \<Rightarrow> 1 | Some n \<Rightarrow> if n = 0 then 1 else n)
      in if js_trim query = [] then
           (Json \<lparr> j_results = [], j_page = page, j_limit = limit, j_total = 0 \<rparr>, [])
         else if fails env (IndexSearch query MAX_SEARCH_SCAN_LIMIT) then
           (Status500, [IndexSearch query MAX_SEARCH_SCAN_LIMIT])
         else
           (let indexMatches = searchIndex (index env) query MAX_SEARCH_SCAN_LIMIT in
            case collect_chat_ids env contactIds [] [IndexSearch query MAX_SEARCH_SCAN_LIMIT] of
              (None, log) \<Rightarrow> (Status500, log)
            | (Some allowedChatIds, log) \<Rightarrow>
                (let filteredMatches =
                       (if contactIds \<noteq> [] \<and> allowedChatIds \<noteq> []
                        then filter (\<lambda>m. e_chat_id m \<in> set allowedChatIds) indexMatches
                        else indexMatches);
                     offset = (page - 1) * limit;
                     paginatedMatches = js_slice filteredMatches offset (offset + limit);
                     calls = log @ map (\<lambda>row. ContactOfChat (e_chat_id row)) paginatedMatches
                 in if list_ex (\<lambda>row. fails env (ContactOfChat (e_chat_id row))) paginatedMatches
                    then (Status500, calls)
                    else (Json \<lparr> j_results = map (enrich env) paginatedMatches,
                                 j_page = page, j_limit = limit,
                                 j_total = length filteredMatches \<rparr>,
                          calls))))"

section \<open>Notions for the statements\<close>

subsection \<open>The effect of a batch\<close>

text \<open>
  \<open>stored_text\<close> is the text the loop writes for a row (lines 152 to 162, \<open>None\<close> when it
  writes none), \<open>entry_of\<close> the entry it writes, \<open>batch_entries\<close> the table after the loop
  ran over the whole batch, \<open>batch_max\<close> the value of \<open>maxId\<close> after it. \<open>post_batch\<close> is the
  connection after a batch that committed: every row of the batch written, the cursor at
  \<open>maxId\<close>, no transaction open.
\<close>

definition stored_text :: "parser \<Rightarrow> source_row \<Rightarrow> js_string option" where
  "stored_text parseBuffer msg =
     (case resolve_text parseBuffer msg of Inl e \<Rightarrow> None | Inr text \<Rightarrow> text_to_store text)"

definition entry_of :: "source_row \<Rightarrow> js_string \<Rightarrow> index_entry" where
  "entry_of msg trimmed =
     \<lparr> e_message_id = message_id msg, e_text = trimmed,
       e_date = row_date msg, e_chat_id = chat_id msg \<rparr>"

fun batch_entries :: "parser \<Rightarrow> source_row list \<Rightarrow> index_entry list \<Rightarrow> index_entry list" where
  "batch_entries parseBuffer [] tbl = tbl"
| "batch_entries parseBuffer (msg # msgs) tbl =
     batch_entries parseBuffer msgs
       (case stored_text parseBuffer msg of
          Some trimmed \<Rightarrow> upsert_entry (entry_of msg trimmed) tbl
        | None \<Rightarrow> tbl)"

fun batch_max :: "source_row list \<Rightarrow> int \<Rightarrow> int" where
  "batch_max [] maxId = maxId"
| "batch_max (msg # msgs) maxId = batch_max msgs (max maxId (message_id msg))"

definition post_batch :: "parser \<Rightarrow> source_row list \<Rightarrow> index_conn \<Rightarrow> index_conn" where
  "post_batch parseBuffer messages c =
     \<lparr> current = \<lparr> message_text = batch_entries parseBuffer messages (message_text (current c)),
                   last_message_id = Some (batch_max messages (getLastIndexedId c)) \<rparr>,
       snapshot = None \<rparr>"

text \<open>Writing one entry, and replacing the table, on a connection.\<close>

definition write_entry :: "index_entry \<Rightarrow> index_conn \<Rightarrow> index_conn" where
  "write_entry e c = c\<lparr>current := (current c)\<lparr>message_text := upsert_entry e (message_text (current c))\<rparr>\<rparr>"

definition with_entries :: "index_entry list \<Rightarrow> index_conn \<Rightarrow> index_conn" where
  "with_entries tbl c = c\<lparr>current := (current c)\<lparr>message_text := tbl\<rparr>\<rparr>"

subsection \<open>Rows above the cursor\<close>

text \<open>
  \<open>rows_above\<close> is the query of \<open>indexNewMessages\<close> without its limit, \<open>pending\<close> the
  number of rows it returns for the cursor of a connection.
\<close>

definition rows_above :: "chat_db \<Rightarrow> int \<Rightarrow> source_row list" where
  "rows_above src lastId = sort_key message_id (filter (\<lambda>r. message_id r > lastId) (joined_rows src))"

definition pending :: "chat_db \<Rightarrow> index_conn \<Rightarrow> nat" where
  "pending src c = length (filter (\<lambda>r. message_id r > getLastIndexedId c) (joined_rows src))"

subsection \<open>Entries and the cursor\<close>





text \<open>
  A sequence of calls, each with its own fault, its own state of the source store and its
  own batch size; \<open>cursor_trace\<close> lists the cursor before the first call and after every
  call.
\<close>

fun cursor_trace :: "parser \<Rightarrow> (nat option \<times> chat_db \<times> int) list \<Rightarrow> index_conn \<Rightarrow> int list" where
  "cursor_trace parseBuffer [] c = [getLastIndexedId c]"
| "cursor_trace parseBuffer ((fault, src, batchSize) # calls) c =
     getLastIndexedId c
       # cursor_trace parseBuffer calls (snd (indexNewMessages parseBuffer fault src batchSize c))"

text \<open>
  \<open>resolver_stored\<close> is the text that would be written if the loop resolved the text
  with \<open>getMessageText\<close>.
\<close>

definition resolver_stored :: "parser \<Rightarrow> source_row \<Rightarrow> js_string option" where
  "resolver_stored parseBuffer row =
     (case getMessageText parseBuffer row of Inl e \<Rightarrow> None | Inr text \<Rightarrow> text_to_store text)"

text \<open>
  The set of conversation identifiers a list of contacts resolves to: what the loop of
  the route collects when no query fails.
\<close>

definition resolve_filter :: "search_env \<Rightarrow> js_string list \<Rightarrow> int list" where
  "resolve_filter env contactIds =
     concat (map (\<lambda>contactId. case contactGroupMap env contactId of
                                 None \<Rightarrow> []
                               | Some identifiers \<Rightarrow> chat_ids_of (chat env) identifiers)
                 contactIds)"

section \<open>Examples\<close>

text \<open>
  The buffer of the class name, the \<open>+\<close> byte, the length byte \<open>0x05\<close>, the bytes of
  \<open>Hello\<close> and the end marker; the buffer of the first test of
  \<^verbatim>\<open>tests/backend/unit/helpers.test.js\<close>; a parser that rejects every buffer, as
  \<^verbatim>\<open>bplist-parser\<close> does without its header.
\<close>

definition hello_buffer :: "byte list" where
  "hello_buffer = nsStringMarker @ [PLUS_BYTE, 0x05] @ map of_char ''Hello'' @ [END_MARKER]"

definition test_buffer :: "byte list" where
  "test_buffer = [
     0x04, 0x0b, 0x73, 0x74, 0x72, 0x65, 0x61, 0x6d, 0x74, 0x79, 0x70, 0x65, 0x64,
     0x81, 0xe8, 0x03, 0x84, 0x01, 0x40, 0x84, 0x84, 0x84, 0x12, 0x4e, 0x53, 0x41,
     0x74, 0x74, 0x72, 0x69, 0x62, 0x75, 0x74, 0x65, 0x64, 0x53, 0x74, 0x72, 0x69,
     0x6e, 0x67, 0x00, 0x84, 0x84, 0x08, 0x4e, 0x53, 0x4f, 0x62, 0x6a, 0x65, 0x63,
     0x74, 0x00, 0x85, 0x92, 0x84, 0x84, 0x84, 0x08, 0x4e, 0x53, 0x53, 0x74, 0x72,
     0x69, 0x6e, 0x67, 0x01, 0x94, 0x84, 0x01, 0x2b, 0x05, 0x48, 0x65, 0x6c, 0x6c,
     0x6f, 0x86]"

definition rejecting_parser :: parser where
  "rejecting_parser data = Inl ParseError"

text \<open>
  Three messages: a plain text, a text that is only in the blob, and an empty text. The
  index store starts empty, without a cursor row; \<open>example_index\<close> is the index the
  example ends with.
\<close>

definition example_src :: chat_db where
  "example_src =
     \<lparr> message =
         [\<lparr> m_ROWID = 1, m_text = Some (js ''hi there''), m_attributedBody = None, m_date = 10 \<rparr>,
          \<lparr> m_ROWID = 2, m_text = None,
            m_attributedBody = Some (nsStringMarker @ [PLUS_BYTE, 0x07] @ map of_char ''call me'' @ [END_MARKER]),
            m_date = 20 \<rparr>,
          \<lparr> m_ROWID = 3, m_text = Some [], m_attributedBody = None, m_date = 30 \<rparr>],
       chat_message_join =
         [\<lparr> cmj_chat_id = 1, cmj_message_id = 1 \<rparr>,
          \<lparr> cmj_chat_id = 1, cmj_message_id = 2 \<rparr>,
          \<lparr> cmj_chat_id = 2, cmj_message_id = 3 \<rparr>],
       handle = [], chat_handle_join = [] \<rparr>"

definition fresh_conn :: index_conn where
  "fresh_conn = \<lparr> current = \<lparr> message_text = [], last_message_id = None \<rparr>, snapshot = None \<rparr>"

definition example_index :: index_conn where
  "example_index =
     \<lparr> current =
         \<lparr> message_text =
             [\<lparr> e_message_id = 1, e_text = js ''hi there'', e_date = 10, e_chat_id = 1 \<rparr>,
              \<lparr> e_message_id = 2, e_text = js ''call me'', e_date = 20, e_chat_id = 1 \<rparr>],
           last_message_id = Some 3 \<rparr>,
       snapshot = None \<rparr>"

text \<open>A source of two rows, for batches of size 1.\<close>

definition two_rows :: chat_db where
  "two_rows =
     \<lparr> message =
         [\<lparr> m_ROWID = 1, m_text = Some (js ''one''), m_attributedBody = None, m_date = 10 \<rparr>,
          \<lparr> m_ROWID = 2, m_text = Some (js ''two''), m_attributedBody = None, m_date = 20 \<rparr>],
       chat_message_join =
         [\<lparr> cmj_chat_id = 1, cmj_message_id = 1 \<rparr>, \<lparr> cmj_chat_id = 1, cmj_message_id = 2 \<rparr>],
       handle = [], chat_handle_join = [] \<rparr>"

text \<open>
  A one-letter text and a two-letter text, each with a blob in which the extractor finds
  nothing; the source that holds the one-letter message.
\<close>

definition one_letter_row :: source_row where
  "one_letter_row =
     \<lparr> message_id = 1, row_text = Some (js ''k''), attributedBody = Some [0x00],
       row_date = 10, chat_id = 1 \<rparr>"

definition two_letter_row :: source_row where
  "two_letter_row =
     \<lparr> message_id = 1, row_text = Some (js ''ok''), attributedBody = Some [0x00],
       row_date = 10, chat_id = 1 \<rparr>"



text \<open>
  Entries in three conversations, each with one handle; the contact \<open>A\<close> groups the
  handle of conversation 1. And an index of one entry, with the text \<open>hi\<close>.
\<close>

definition search_example :: search_env where
  "search_example =
     \<lparr> index =
         \<lparr> message_text =
             [\<lparr> e_message_id = 11, e_text = js ''hello from A'', e_date = 300, e_chat_id = 1 \<rparr>,
              \<lparr> e_message_id = 12, e_text = js ''Hello B'', e_date = 200, e_chat_id = 2 \<rparr>,
              \<lparr> e_message_id = 13, e_text = js ''say hello'', e_date = 100, e_chat_id = 3 \<rparr>,
              \<lparr> e_message_id = 14, e_text = js ''bye'', e_date = 400, e_chat_id = 1 \<rparr>],
           last_message_id = Some 14 \<rparr>,
       chat =
         \<lparr> message = [], chat_message_join = [],
           handle = [\<lparr> h_ROWID = 1, h_id = js ''a@example.com'' \<rparr>,
                     \<lparr> h_ROWID = 2, h_id = js ''b@example.com'' \<rparr>,
                     \<lparr> h_ROWID = 3, h_id = js ''c@example.com'' \<rparr>],
           chat_handle_join = [\<lparr> chj_chat_id = 1, chj_handle_id = 1 \<rparr>,
                               \<lparr> chj_chat_id = 2, chj_handle_id = 2 \<rparr>,
                               \<lparr> chj_chat_id = 3, chj_handle_id = 3 \<rparr>] \<rparr>,
       contactGroupMap = (\<lambda>contactId. if contactId = js ''A'' then Some [js ''a@example.com''] else None),
       getDisplayName = (\<lambda>identifier. identifier),
       fails = (\<lambda>call. False) \<rparr>"

definition wildcard_example :: search_env where
  "wildcard_example =
     \<lparr> index = \<lparr> message_text = [\<lparr> e_message_id = 1, e_text = js ''hi'', e_date = 0, e_chat_id = 1 \<rparr>],
                 last_message_id = Some 1 \<rparr>,
       chat = \<lparr> message = [], chat_message_join = [], handle = [], chat_handle_join = [] \<rparr>,
       contactGroupMap = (\<lambda>contactId. None),
       getDisplayName = (\<lambda>identifier. identifier),
       fails = (\<lambda>call. False) \<rparr>"

section \<open>Verification: the binary text extractor\<close>

lemmas extractor_defs =
  nsStringMarker_def PLUS_BYTE_def END_MARKER_def fallback_text_def fallback_bounds_def
  parse_length_def text_end_def indexOf_byte_def byte_at_def slice_def cleanExtractedText_def
  js_trim_def isJunk_def isWhiteSpace_def js_def skip_controls_def readUInt16LE_def
  readUInt32LE_def byte_or0_def

lemma or_push_bit_add:
  fixes a c :: nat
  assumes "a < 2 ^ n"
  shows "a OR push_bit n c = a + push_bit n c"
proof -
  have a: "take_bit n a = a"
    using assms by (simp add: take_bit_nat_eq_self_iff)
  have "\<not> bit a m \<or> \<not> bit (push_bit n c) m" for m
  proof (cases "m < n")
    case True
    then show ?thesis by (simp add: bit_push_bit_iff)
  next
    case False
    have "bit (take_bit n a) m \<longleftrightarrow> m < n \<and> bit a m"
      by (rule bit_take_bit_iff)
    with False a show ?thesis by simp
  qed
  then show ?thesis
    by (rule disjunctive_add[symmetric])
qed

lemma byte_or0_lt: "byte_or0 data i < 256"
proof -
  have "unat (b :: byte) < 256" for b
    using unsigned_less[of b, where 'a = nat] by simp
  then show ?thesis
    by (simp add: byte_or0_def split: option.splits)
qed

text \<open>The three-byte length: the bitwise expression of the source is the little-endian value.\<close>

lemma or_bytes:
  fixes a b c :: nat
  assumes "a < 256" "b < 256"
  shows "a OR push_bit 8 b OR push_bit 16 c = a + 256 * b + 65536 * c"
proof -
  have 1: "a OR push_bit 8 b = a + push_bit 8 b"
    using assms(1) or_push_bit_add[of a 8 b] by simp
  have "a + push_bit 8 b < 2 ^ 16"
    using assms by (simp add: push_bit_eq_mult)
  then have "(a + push_bit 8 b) OR push_bit 16 c = (a + push_bit 8 b) + push_bit 16 c"
    by (rule or_push_bit_add)
  with 1 show ?thesis
    by (simp add: push_bit_eq_mult or.assoc[symmetric])
qed

lemma length_nsStringMarker: "length nsStringMarker = 8"
  by (simp add: nsStringMarker_def)

lemma structured_text_throws:
  "parseBuffer data = Inl e \<Longrightarrow> structured_text parseBuffer data = None"
  by (simp add: structured_text_def)

lemma structured_text_rejecting: "structured_text rejecting_parser data = None"
  by (simp add: structured_text_def rejecting_parser_def)

lemma extract_fallback:
  "structured_text parseBuffer data = None \<Longrightarrow>
   extractTextFromAttributedBody parseBuffer (Some data) =
     (case fallback_text data of Inl e \<Rightarrow> Inr None | Inr r \<Rightarrow> Inr r)"
  by (simp add: extractTextFromAttributedBody_def extract_body_def)

lemma fallback_no_marker:
  "indexOf_buffer data nsStringMarker = None \<Longrightarrow> fallback_text data = Inr None"
  by (simp add: fallback_text_def fallback_bounds_def)

lemma hello_fallback: "fallback_text hello_buffer = Inr (Some (js ''Hello''))"
  by (simp add: hello_buffer_def extractor_defs)

text \<open>The repository's own test: the extractor returns \<open>Hello\<close> for the test buffer.\<close>

lemma test_buffer_extracts_Hello:
  "extractTextFromAttributedBody rejecting_parser (Some test_buffer) = Inr (Some (js ''Hello''))"
  by (simp add: extract_fallback structured_text_rejecting)
     (simp add: test_buffer_def extractor_defs)

lemma scan_objects_nonempty: "scan_objects objs = Inr (Some t) \<Longrightarrow> t \<noteq> []"
  by (induction objs) (auto split: plist.splits option.splits if_splits)

lemma structured_text_nonempty: "structured_text parseBuffer data = Some t \<Longrightarrow> t \<noteq> []"
  by (auto simp: structured_text_def split: sum.splits list.splits if_splits)

lemma fallback_text_nonempty: "fallback_text data = Inr (Some t) \<Longrightarrow> t \<noteq> []"
  by (auto simp: fallback_text_def Let_def split: sum.splits option.splits prod.splits if_splits)

lemma extract_nonempty:
  "extractTextFromAttributedBody parseBuffer buffer = Inr (Some t) \<Longrightarrow> t \<noteq> []"
  by (auto simp: extractTextFromAttributedBody_def extract_body_def
      dest: structured_text_nonempty fallback_text_nonempty
      split: option.splits sum.splits)

lemma extract_returns: "\<exists>r. extractTextFromAttributedBody parseBuffer buffer = Inr r"
  by (simp add: extractTextFromAttributedBody_def split: option.splits sum.splits)

text \<open>
  Claim C6, as amended. For the buffer made of the class name, the \<open>+\<close> byte, the length
  byte \<open>0x05\<close>, \<open>Hello\<close> and the end marker, and a structured path that finds nothing, the
  extractor returns \<open>Hello\<close>. In general, when the fallback path finds the class name at
  \<open>idx\<close> and the \<open>+\<close> byte within 80 bytes, the byte \<open>v\<close> after it gives the length:
  \<open>v < 0x80\<close> is the length; \<open>0x81\<close>, \<open>0x82\<close>, \<open>0x83\<close> announce 2, 3, 4 little-endian
  bytes; any other value leaves the length at 0. With \<open>bound\<close> the position of the first
  \<open>0x86\<close> from the text start on, or the buffer's length when there is none, the text
  ends at \<open>min (start + length) bound\<close> when the length is positive and at \<open>bound\<close> when it
  is 0; the result is the cleaned UTF-8 decoding of that range, \<open>null\<close> when empty.
\<close>

theorem fallback_decoding:
  "(structured_text parseBuffer hello_buffer = None \<longrightarrow>
      extractTextFromAttributedBody parseBuffer (Some hello_buffer) = Inr (Some (js ''Hello'')))
   \<and> (fallback_bounds data = Inr (Some (textStart, messageLength, textEnd)) \<longrightarrow>
      (\<exists>idx plusIdx.
         indexOf_buffer data nsStringMarker = Some idx
         \<and> indexOf_byte data PLUS_BYTE (idx + 8) = Some plusIdx \<and> plusIdx < idx + 80
         \<and> (case byte_at data (plusIdx + 1) of
              None \<Rightarrow> messageLength = 0
            | Some v \<Rightarrow>
                if v < 0x80 then messageLength = unat v \<and> textStart = plusIdx + 2
                else if v = 0x81 then
                  messageLength = unat (data ! (plusIdx + 2)) + 256 * unat (data ! (plusIdx + 3))
                  \<and> textStart = plusIdx + 4
                else if v = 0x82 then
                  messageLength = byte_or0 data (plusIdx + 2) + 256 * byte_or0 data (plusIdx + 3)
                                  + 65536 * byte_or0 data (plusIdx + 4)
                  \<and> textStart = plusIdx + 5
                else if v = 0x83 then
                  messageLength = unat (data ! (plusIdx + 2)) + 256 * unat (data ! (plusIdx + 3))
                                  + 65536 * unat (data ! (plusIdx + 4))
                                  + 16777216 * unat (data ! (plusIdx + 5))
                  \<and> textStart = plusIdx + 6
                else messageLength = 0))
      \<and> textEnd =
          (let bound = (case indexOf_byte data END_MARKER textStart of
                          Some markerIdx \<Rightarrow> markerIdx
                        | None \<Rightarrow> length data)
           in if messageLength > 0 then min (textStart + messageLength) bound else bound)
      \<and> (structured_text parseBuffer data = None \<longrightarrow>
           extractTextFromAttributedBody parseBuffer (Some data) =
             Inr (let text = cleanExtractedText (utf8_decode (slice data textStart textEnd))
                  in if text \<noteq> [] then Some text else None)))"
proof (intro conjI impI)
  assume "structured_text parseBuffer hello_buffer = None"
  then show "extractTextFromAttributedBody parseBuffer (Some hello_buffer) = Inr (Some (js ''Hello''))"
    by (simp add: extract_fallback hello_fallback)
next
  assume b: "fallback_bounds data = Inr (Some (textStart, messageLength, textEnd))"
  then obtain idx plusIdx where
    i: "indexOf_buffer data nsStringMarker = Some idx" and
    p: "indexOf_byte data PLUS_BYTE (idx + 8) = Some plusIdx" and
    w: "plusIdx < idx + 80" and
    l: "parse_length data (plusIdx + 1) = Inr (messageLength, textStart)" and
    e: "textEnd = text_end data textStart messageLength"
    by (auto simp: fallback_bounds_def length_nsStringMarker
        split: option.splits if_splits sum.splits)
  have n3: "plusIdx + 3 = Suc (Suc (Suc plusIdx))"
    and n4: "plusIdx + 4 = Suc (Suc (Suc (Suc plusIdx)))"
    and n5: "plusIdx + 5 = Suc (Suc (Suc (Suc (Suc plusIdx))))"
    by simp_all
  have "case byte_at data (plusIdx + 1) of
              None \<Rightarrow> messageLength = 0
            | Some v \<Rightarrow>
                if v < 0x80 then messageLength = unat v \<and> textStart = plusIdx + 2
                else if v = 0x81 then
                  messageLength = unat (data ! (plusIdx + 2)) + 256 * unat (data ! (plusIdx + 3))
                  \<and> textStart = plusIdx + 4
                else if v = 0x82 then
                  messageLength = byte_or0 data (plusIdx + 2) + 256 * byte_or0 data (plusIdx + 3)
                                  + 65536 * byte_or0 data (plusIdx + 4)
                  \<and> textStart = plusIdx + 5
                else if v = 0x83 then
                  messageLength = unat (data ! (plusIdx + 2)) + 256 * unat (data ! (plusIdx + 3))
                                  + 65536 * unat (data ! (plusIdx + 4))
                                  + 16777216 * unat (data ! (plusIdx + 5))
                  \<and> textStart = plusIdx + 6
                else messageLength = 0"
    using l
    by (auto simp: parse_length_def readUInt16LE_def readUInt32LE_def or_bytes byte_or0_lt
        n3 n4 n5
        split: option.splits if_splits sum.splits)
  with i p w show "\<exists>idx plusIdx.
         indexOf_buffer data nsStringMarker = Some idx
         \<and> indexOf_byte data PLUS_BYTE (idx + 8) = Some plusIdx \<and> plusIdx < idx + 80
         \<and> (case byte_at data (plusIdx + 1) of
              None \<Rightarrow> messageLength = 0
            | Some v \<Rightarrow>
                if v < 0x80 then messageLength = unat v \<and> textStart = plusIdx + 2
                else if v = 0x81 then
                  messageLength = unat (data ! (plusIdx + 2)) + 256 * unat (data ! (plusIdx + 3))
                  \<and> textStart = plusIdx + 4
                else if v = 0x82 then
                  messageLength = byte_or0 data (plusIdx + 2) + 256 * byte_or0 data (plusIdx + 3)
                                  + 65536 * byte_or0 data (plusIdx + 4)
                  \<and> textStart = plusIdx + 5
                else if v = 0x83 then
                  messageLength = unat (data ! (plusIdx + 2)) + 256 * unat (data ! (plusIdx + 3))
                                  + 65536 * unat (data ! (plusIdx + 4))
                                  + 16777216 * unat (data ! (plusIdx + 5))
                  \<and> textStart = plusIdx + 6
                else messageLength = 0)"
    by blast
  show "textEnd =
          (let bound = (case indexOf_byte data END_MARKER textStart of
                          Some markerIdx \<Rightarrow> markerIdx
                        | None \<Rightarrow> length data)
           in if messageLength > 0 then min (textStart + messageLength) bound else bound)"
    using e by (simp add: text_end_def)
  assume "structured_text parseBuffer data = None"
  then show "extractTextFromAttributedBody parseBuffer (Some data) =
             Inr (let text = cleanExtractedText (utf8_decode (slice data textStart textEnd))
                  in if text \<noteq> [] then Some text else None)"
    using b by (simp add: extract_fallback fallback_text_def Let_def)
qed

theorem fallback_decoding_witness:
  "structured_text rejecting_parser hello_buffer = None
   \<and> extractTextFromAttributedBody rejecting_parser (Some hello_buffer) = Inr (Some (js ''Hello''))
   \<and> fallback_bounds hello_buffer = Inr (Some (10, 5, 15))
   \<and> byte_at hello_buffer 9 = Some 0x05
   \<and> indexOf_byte hello_buffer END_MARKER 10 = Some 15"
proof -
  have s: "structured_text rejecting_parser hello_buffer = None"
    by (rule structured_text_rejecting)
  have b: "fallback_bounds hello_buffer = Inr (Some (10, 5, 15))"
    by (simp add: hello_buffer_def extractor_defs)
  have m: "byte_at hello_buffer 9 = Some 0x05 \<and> indexOf_byte hello_buffer END_MARKER 10 = Some 15"
    by (simp add: hello_buffer_def extractor_defs)
  show ?thesis
    using fallback_decoding[of rejecting_parser hello_buffer 10 5 15] s b m by simp
qed

text \<open>
  The claim as stated fails where the decoded length is 0: with the length byte \<open>0x00\<close>
  before \<open>Hi\<close> and the end marker, the text runs to the marker at 12 and \<open>Hi\<close> is
  returned, while \<open>min (start + length)\<close> of the marker position is the start, 10.
\<close>

theorem fallback_end_counterexample:
  "fallback_bounds (nsStringMarker @ [PLUS_BYTE, 0x00] @ map of_char ''Hi'' @ [END_MARKER])
     = Inr (Some (10, 0, 12))
   \<and> indexOf_byte (nsStringMarker @ [PLUS_BYTE, 0x00] @ map of_char ''Hi'' @ [END_MARKER])
        END_MARKER 10 = Some 12
   \<and> (12 :: nat) \<noteq> min (10 + 0) 12
   \<and> extractTextFromAttributedBody rejecting_parser
        (Some (nsStringMarker @ [PLUS_BYTE, 0x00] @ map of_char ''Hi'' @ [END_MARKER]))
       = Inr (Some (js ''Hi''))"
  by (simp add: extract_fallback structured_text_rejecting)
     (simp add: extractor_defs)

text \<open>
  Claim C7. For every parser and every buffer, also \<open>null\<close>, the extractor returns a
  value and does not throw, and a text it returns is not empty. It returns \<open>null\<close> for
  \<open>null\<close>; for the empty buffer when the structured path finds nothing in it; and for
  every buffer in which the structured path finds nothing and the class name does not
  occur.
\<close>

theorem extract_never_throws:
  "(\<exists>r. extractTextFromAttributedBody parseBuffer buffer = Inr r)
   \<and> (\<forall>t. extractTextFromAttributedBody parseBuffer buffer = Inr (Some t) \<longrightarrow> t \<noteq> [])
   \<and> extractTextFromAttributedBody parseBuffer None = Inr None
   \<and> (structured_text parseBuffer [] = None \<longrightarrow>
        extractTextFromAttributedBody parseBuffer (Some []) = Inr None)
   \<and> (structured_text parseBuffer data = None \<and> indexOf_buffer data nsStringMarker = None \<longrightarrow>
        extractTextFromAttributedBody parseBuffer (Some data) = Inr None)"
proof (intro conjI allI impI)
  show "\<exists>r. extractTextFromAttributedBody parseBuffer buffer = Inr r"
    by (rule extract_returns)
  show "t \<noteq> []" if "extractTextFromAttributedBody parseBuffer buffer = Inr (Some t)" for t
    using that by (rule extract_nonempty)
  show "extractTextFromAttributedBody parseBuffer None = Inr None"
    by (simp add: extractTextFromAttributedBody_def)
  show "extractTextFromAttributedBody parseBuffer (Some []) = Inr None"
    if "structured_text parseBuffer [] = None"
    using that by (simp add: extract_fallback fallback_no_marker nsStringMarker_def)
  show "extractTextFromAttributedBody parseBuffer (Some data) = Inr None"
    if "structured_text parseBuffer data = None \<and> indexOf_buffer data nsStringMarker = None"
    using that by (simp add: extract_fallback fallback_no_marker)
qed

text \<open>
  The three inputs of the repository's tests, and a malformed buffer whose two-byte
  length is cut off: \<open>readUInt16LE\<close> throws there and the outer \<open>catch\<close> returns \<open>null\<close>.
\<close>

theorem extract_never_throws_witness:
  "extractTextFromAttributedBody rejecting_parser None = Inr None
   \<and> extractTextFromAttributedBody rejecting_parser (Some []) = Inr None
   \<and> indexOf_buffer (map of_char ''random data without marker'') nsStringMarker = None
   \<and> extractTextFromAttributedBody rejecting_parser
        (Some (map of_char ''random data without marker'')) = Inr None
   \<and> fallback_text (nsStringMarker @ [PLUS_BYTE, 0x81, 0x03]) = Inl RangeError
   \<and> extractTextFromAttributedBody rejecting_parser
        (Some (nsStringMarker @ [PLUS_BYTE, 0x81, 0x03])) = Inr None"
proof -
  have n: "indexOf_buffer (map of_char ''random data without marker'') nsStringMarker = None"
    by (simp add: nsStringMarker_def)
  have r: "fallback_text (nsStringMarker @ [PLUS_BYTE, 0x81, 0x03]) = Inl RangeError"
    by (simp add: extractor_defs)
  have e: "extractTextFromAttributedBody rejecting_parser
        (Some (nsStringMarker @ [PLUS_BYTE, 0x81, 0x03])) = Inr None"
    by (simp add: extract_fallback structured_text_rejecting r)
  show ?thesis
    using extract_never_throws[of rejecting_parser None "map of_char ''random data without marker''"]
      extract_never_throws[of rejecting_parser None "[]"]
      structured_text_rejecting n r e
    by simp
qed

section \<open>Verification: batches of the incremental indexer\<close>

lemma resolve_text_returns: "\<exists>t. resolve_text P msg = Inr t"
  using extract_returns[of P "attributedBody msg"] by (auto simp: resolve_text_def)

lemma indexDbRun_insert:
  "indexDbRun fault k (insert_or_replace e) c =
     (if fault = Some k then (Inl SqliteError, c) else (Inr (), write_entry e c))"
  by (simp add: indexDbRun_def insert_or_replace_def write_entry_def)

lemma index_rows_Cons_None:
  assumes "stored_text P msg = None"
  shows "index_rows P fault (msg # msgs) maxId k c =
         index_rows P fault msgs (max maxId (message_id msg)) k c"
proof -
  obtain t where t: "resolve_text P msg = Inr t"
    using resolve_text_returns by blast
  with assms have "text_to_store t = None"
    by (simp add: stored_text_def)
  with t show ?thesis by simp
qed

lemma index_rows_Cons_Some:
  assumes "stored_text P msg = Some trimmed"
  shows "index_rows P fault (msg # msgs) maxId k c =
         (if fault = Some k then (Inl SqliteError, c)
          else index_rows P fault msgs (max maxId (message_id msg)) (Suc k)
                 (write_entry (entry_of msg trimmed) c))"
proof -
  obtain t where t: "resolve_text P msg = Inr t"
    using resolve_text_returns by blast
  with assms have "text_to_store t = Some trimmed"
    by (simp add: stored_text_def)
  with t show ?thesis by (simp add: indexDbRun_insert entry_of_def)
qed

subsection \<open>The loop of the batch\<close>

lemmas index_rows_step = index_rows_Cons_None index_rows_Cons_Some

lemma write_entry_fields [simp]:
  "snapshot (write_entry e c) = snapshot c"
  "last_message_id (current (write_entry e c)) = last_message_id (current c)"
  "message_text (current (write_entry e c)) = upsert_entry e (message_text (current c))"
  by (simp_all add: write_entry_def)

lemma index_rows_snapshot:
  "index_rows P fault msgs maxId k c = (r, c') \<Longrightarrow>
     snapshot c' = snapshot c \<and> last_message_id (current c') = last_message_id (current c)"
proof (induction msgs arbitrary: maxId k c)
  case Nil
  then show ?case by auto
next
  case (Cons msg msgs)
  show ?case
  proof (cases "stored_text P msg")
    case None
    with Cons.prems have "index_rows P fault msgs (max maxId (message_id msg)) k c = (r, c')"
      by (simp add: index_rows_Cons_None del: index_rows.simps)
    then show ?thesis by (rule Cons.IH)
  next
    case (Some trimmed)
    show ?thesis
    proof (cases "fault = Some k")
      case True
      with Cons.prems Some show ?thesis
        by (simp add: index_rows_Cons_Some del: index_rows.simps)
    next
      case False
      with Cons.prems Some
      have "index_rows P fault msgs (max maxId (message_id msg)) (Suc k)
              (write_entry (entry_of msg trimmed) c) = (r, c')"
        by (simp add: index_rows_Cons_Some del: index_rows.simps)
      from Cons.IH[OF this] show ?thesis by simp
    qed
  qed
qed

lemma with_entries_id [simp]: "with_entries (message_text (current c)) c = c"
  by (simp add: with_entries_def)

lemma write_entry_with: "write_entry e c = with_entries (upsert_entry e (message_text (current c))) c"
  by (simp add: write_entry_def with_entries_def)

lemma with_entries_fields [simp]:
  "snapshot (with_entries tbl c) = snapshot c"
  "last_message_id (current (with_entries tbl c)) = last_message_id (current c)"
  "message_text (current (with_entries tbl c)) = tbl"
  "with_entries tbl (with_entries tbl' c) = with_entries tbl c"
  by (simp_all add: with_entries_def)

lemma index_rows_Inr:
  "index_rows P fault msgs maxId k c = (Inr (m, k'), c') \<Longrightarrow>
     c' = with_entries (batch_entries P msgs (message_text (current c))) c
     \<and> m = batch_max msgs maxId"
proof (induction msgs arbitrary: maxId k c)
  case Nil
  then show ?case by auto
next
  case (Cons msg msgs)
  show ?case
  proof (cases "stored_text P msg")
    case None
    with Cons.prems have "index_rows P fault msgs (max maxId (message_id msg)) k c = (Inr (m, k'), c')"
      by (simp add: index_rows_Cons_None del: index_rows.simps)
    from Cons.IH[OF this] None show ?thesis by simp
  next
    case (Some trimmed)
    show ?thesis
    proof (cases "fault = Some k")
      case True
      with Cons.prems Some show ?thesis
        by (simp add: index_rows_Cons_Some del: index_rows.simps)
    next
      case False
      with Cons.prems Some
      have "index_rows P fault msgs (max maxId (message_id msg)) (Suc k)
              (write_entry (entry_of msg trimmed) c) = (Inr (m, k'), c')"
        by (simp add: index_rows_Cons_Some del: index_rows.simps)
      from Cons.IH[OF this] Some show ?thesis
        by (simp add: write_entry_with)
    qed
  qed
qed

lemma index_rows_no_fault:
  "index_rows P fault msgs maxId k c = (Inr r, c') \<Longrightarrow>
   index_rows P None msgs maxId k c = (Inr r, c')"
proof (induction msgs arbitrary: maxId k c)
  case Nil
  then show ?case by auto
next
  case (Cons msg msgs)
  show ?case
  proof (cases "stored_text P msg")
    case None
    with Cons.prems Cons.IH show ?thesis
      by (simp add: index_rows_Cons_None del: index_rows.simps)
  next
    case (Some trimmed)
    with Cons.prems Cons.IH show ?thesis
      by (simp add: index_rows_Cons_Some del: index_rows.simps split: if_splits)
  qed
qed

text \<open>Without a fault the loop completes.\<close>

lemma index_rows_None:
  "\<exists>k'. index_rows P None msgs maxId k c =
     (Inr (batch_max msgs maxId, k'), with_entries (batch_entries P msgs (message_text (current c))) c)"
proof (induction msgs arbitrary: maxId k c)
  case Nil
  then show ?case by auto
next
  case (Cons msg msgs)
  show ?case
  proof (cases "stored_text P msg")
    case None
    with Cons.IH[of "max maxId (message_id msg)" k c] show ?thesis
      by (simp add: index_rows_Cons_None del: index_rows.simps)
  next
    case (Some trimmed)
    with Cons.IH[of "max maxId (message_id msg)" "Suc k" "write_entry (entry_of msg trimmed) c"] show ?thesis
      by (simp add: index_rows_Cons_Some write_entry_with del: index_rows.simps)
  qed
qed

subsection \<open>The outcomes of \<open>indexNewMessages\<close>\<close>

lemma indexDbRun_begin:
  "indexDbRun fault 0 begin_transaction c =
     (if fault = Some 0 \<or> snapshot c \<noteq> None then (Inl SqliteError, c)
      else (Inr (), c\<lparr>snapshot := Some (current c)\<rparr>))"
  by (simp add: indexDbRun_def begin_transaction_def)

lemma indexDbRun_setLast:
  "indexDbRun fault k (setLastIndexedId m) c =
     (if fault = Some k then (Inl SqliteError, c)
      else (Inr (), c\<lparr>current := (current c)\<lparr>last_message_id := Some m\<rparr>\<rparr>))"
  by (simp add: indexDbRun_def setLastIndexedId_def)

lemma indexDbRun_commit:
  "indexDbRun fault k commit c =
     (if fault = Some k \<or> snapshot c = None then (Inl SqliteError, c)
      else (Inr (), c\<lparr>snapshot := None\<rparr>))"
  by (simp add: indexDbRun_def commit_def)

lemma try_block_cases:
  assumes "try_block P fault messages lastId c0 = (r, c1)"
  shows "((\<exists>e. r = Inl e) \<and> snapshot c1 = snapshot c0)
       \<or> (r = Inr (length messages) \<and> snapshot c0 \<noteq> None
           \<and> c1 = \<lparr> current = \<lparr> message_text = batch_entries P messages (message_text (current c0)),
                                 last_message_id = Some (batch_max messages lastId) \<rparr>,
                     snapshot = None \<rparr>)"
proof (cases "index_rows P fault messages lastId 1 c0")
  case (Pair r1 c')
  note snap = index_rows_snapshot[OF Pair]
  show ?thesis
  proof (cases r1)
    case (Inl e)
    with Pair assms snap show ?thesis
      by (auto simp: try_block_def)
  next
    case (Inr mk)
    obtain m k where mk: "mk = (m, k)" by (cases mk)
    from index_rows_Inr[OF Pair[unfolded Inr mk]]
    have c': "c' = with_entries (batch_entries P messages (message_text (current c0))) c0"
      and m: "m = batch_max messages lastId" by simp_all
    from assms Pair Inr mk snap show ?thesis
      by (auto simp: try_block_def indexDbRun_setLast indexDbRun_commit c' m with_entries_def
          split: if_splits)
  qed
qed

lemma rollback_restores:
  "snapshot c = None \<Longrightarrow> snapshot c1 = Some (current c) \<Longrightarrow> rollback c1 = c"
  by (cases c) (simp add: rollback_def)

lemma indexNewMessages_cases:
  assumes "indexNewMessages P fault src batchSize c = (r, c')"
      and "messages = select_messages src (getLastIndexedId c) batchSize"
  shows "(messages = [] \<and> r = Inr 0 \<and> c' = c)
       \<or> (messages \<noteq> [] \<and> (\<exists>e. r = Inl e) \<and> c' = c)
       \<or> (messages \<noteq> [] \<and> snapshot c = None \<and> r = Inr (length messages)
           \<and> c' = post_batch P messages c)"
proof (cases "messages = []")
  case True
  with assms show ?thesis by (simp add: indexNewMessages_def)
next
  case ne: False
  show ?thesis
  proof (cases "fault = Some 0 \<or> snapshot c \<noteq> None")
    case True
    with assms ne show ?thesis
      by (auto simp: indexNewMessages_def Let_def indexDbRun_begin)
  next
    case False
    define c0 where "c0 = c\<lparr>snapshot := Some (current c)\<rparr>"
    obtain r1 c1 where tb: "try_block P fault messages (getLastIndexedId c) c0 = (r1, c1)"
      by (cases "try_block P fault messages (getLastIndexedId c) c0")
    from assms ne False tb have res: "(r, c') = (case r1 of Inl e \<Rightarrow> (Inl e, rollback c1) | Inr n \<Rightarrow> (Inr n, c1))"
      by (simp add: indexNewMessages_def Let_def indexDbRun_begin c0_def)
    from try_block_cases[OF tb] show ?thesis
    proof
      assume a: "(\<exists>e. r1 = Inl e) \<and> snapshot c1 = snapshot c0"
      then have "rollback c1 = c"
        using False by (intro rollback_restores) (simp_all add: c0_def)
      with a res ne show ?thesis by auto
    next
      assume "r1 = Inr (length messages) \<and> snapshot c0 \<noteq> None
           \<and> c1 = \<lparr> current = \<lparr> message_text = batch_entries P messages (message_text (current c0)),
                                 last_message_id = Some (batch_max messages (getLastIndexedId c)) \<rparr>,
                     snapshot = None \<rparr>"
      with res ne False show ?thesis
        by (simp add: post_batch_def c0_def)
    qed
  qed
qed

lemma try_block_no_fault:
  assumes "snapshot c0 \<noteq> None"
  shows "try_block P None messages lastId c0 =
     (Inr (length messages),
      \<lparr> current = \<lparr> message_text = batch_entries P messages (message_text (current c0)),
                                 last_message_id = Some (batch_max messages lastId) \<rparr>,
                     snapshot = None \<rparr>)"
proof -
  obtain k' where "index_rows P None messages lastId 1 c0 =
     (Inr (batch_max messages lastId, k'), with_entries (batch_entries P messages (message_text (current c0))) c0)"
    using index_rows_None by blast
  with assms show ?thesis
    by (simp add: try_block_def indexDbRun_setLast indexDbRun_commit with_entries_def)
qed

lemma indexNewMessages_no_fault:
  assumes "snapshot c = None"
      and "messages = select_messages src (getLastIndexedId c) batchSize"
      and "messages \<noteq> []"
  shows "indexNewMessages P None src batchSize c = (Inr (length messages), post_batch P messages c)"
  using assms
  by (simp add: indexNewMessages_def Let_def indexDbRun_begin try_block_no_fault post_batch_def)

subsection \<open>Termination of \<open>buildIndex\<close>\<close>

text \<open>
  A batch that indexed a row leaves fewer rows pending, so the loop of \<open>buildIndex\<close>
  terminates.
\<close>

lemma batch_max_ge: "maxId \<le> batch_max msgs maxId"
proof (induction msgs arbitrary: maxId)
  case Nil
  then show ?case by simp
next
  case (Cons msg msgs)
  have "maxId \<le> max maxId (message_id msg)" by simp
  also have "\<dots> \<le> batch_max msgs (max maxId (message_id msg))" by (rule Cons.IH)
  finally show ?case by simp
qed

lemma batch_max_mem: "m \<in> set msgs \<Longrightarrow> message_id m \<le> batch_max msgs maxId"
proof (induction msgs arbitrary: maxId)
  case Nil
  then show ?case by simp
next
  case (Cons msg msgs)
  show ?case
  proof (cases "m = msg")
    case True
    have "message_id msg \<le> max maxId (message_id msg)" by simp
    also have "\<dots> \<le> batch_max msgs (max maxId (message_id msg))" by (rule batch_max_ge)
    finally show ?thesis using True by simp
  next
    case False
    with Cons.prems have "m \<in> set msgs" by simp
    from Cons.IH[OF this] show ?thesis by simp
  qed
qed

lemma batch_max_cases: "batch_max msgs maxId = maxId \<or> (\<exists>m \<in> set msgs. batch_max msgs maxId = message_id m)"
proof (induction msgs arbitrary: maxId)
  case Nil
  then show ?case by simp
next
  case (Cons msg msgs)
  from Cons.IH[of "max maxId (message_id msg)"] show ?case
    by (auto simp: max_def split: if_splits)
qed

lemma select_messages_alt: "select_messages src lastId batchSize = sql_limit batchSize (rows_above src lastId)"
  by (simp add: select_messages_def rows_above_def)

lemma set_sql_limit: "set (sql_limit n xs) \<subseteq> set xs"
  by (auto simp: sql_limit_def dest: in_set_takeD)

lemma set_rows_above: "set (rows_above src lastId) = {r \<in> set (joined_rows src). message_id r > lastId}"
  by (auto simp: rows_above_def)

lemma select_messages_mem:
  "m \<in> set (select_messages src lastId batchSize) \<Longrightarrow> m \<in> set (joined_rows src) \<and> message_id m > lastId"
  using set_sql_limit[of batchSize "rows_above src lastId"]
  by (auto simp: select_messages_alt set_rows_above)

lemma getLastIndexedId_post_batch [simp]:
  "getLastIndexedId (post_batch P messages c) = batch_max messages (getLastIndexedId c)"
  by (simp add: getLastIndexedId_def post_batch_def)

lemma pending_post_batch:
  assumes "messages = select_messages src (getLastIndexedId c) batchSize" "messages \<noteq> []"
  shows "pending src (post_batch P messages c) < pending src c"
proof -
  let ?l = "getLastIndexedId c" and ?l' = "batch_max messages (getLastIndexedId c)"
  let ?xs = "filter (\<lambda>r. message_id r > ?l) (joined_rows src)"
  from assms(2) obtain m where m: "m \<in> set messages" using hd_in_set by blast
  with assms(1) have mj: "m \<in> set (joined_rows src)" and ml: "message_id m > ?l"
    using select_messages_mem by blast+
  have le: "?l \<le> ?l'" by (rule batch_max_ge)
  have "filter (\<lambda>r. message_id r > ?l') (joined_rows src) = filter (\<lambda>r. message_id r > ?l') ?xs"
    using le by (auto intro!: filter_cong)
  moreover have "length (filter (\<lambda>r. message_id r > ?l') ?xs) < length ?xs"
  proof (rule length_filter_less)
    show "m \<in> set ?xs" using mj ml by simp
    show "\<not> message_id m > ?l'" using batch_max_mem[OF m, of ?l] by simp
  qed
  ultimately show ?thesis by (simp add: pending_def)
qed

lemma indexNewMessages_pending:
  assumes "indexNewMessages P fault src batchSize c = (Inr n, c')" "n > 0"
  shows "pending src c' < pending src c"
proof -
  define messages where "messages = select_messages src (getLastIndexedId c) batchSize"
  from indexNewMessages_cases[OF assms(1) messages_def] assms(2)
  have "messages \<noteq> []" "c' = post_batch P messages c" by auto
  with pending_post_batch[OF messages_def] show ?thesis by simp
qed

lemma full_batch_pending:
  assumes "(Inr n, c') = indexNewMessages P fault src batchSize c" "\<not> n < 5000"
  shows "pending src c' < pending src c"
  using indexNewMessages_pending[of P fault src batchSize c n c'] assms by simp

termination buildIndex_loop
  by (relation "measure (\<lambda>(parseBuffer, faults, src, batch, totalIndexed, c). pending src c)")
     (auto intro: full_batch_pending)

declare buildIndex_loop.simps [simp del]

subsection \<open>Entries and the cursor\<close>



lemma entry_of_fields [simp]:
  "e_message_id (entry_of msg t) = message_id msg" "e_text (entry_of msg t) = t"
  by (simp_all add: entry_of_def)
















section \<open>Verification: the incremental indexer\<close>

subsection \<open>The end-to-end example\<close>

lemmas store_defs =
  select_messages_def joined_rows_def sql_limit_def getLastIndexedId_def

lemmas indexer_defs =
  indexNewMessages_def try_block_def indexDbRun_def begin_transaction_def commit_def rollback_def
  insert_or_replace_def setLastIndexedId_def upsert_entry_def resolve_text_def text_to_store_def
  extractTextFromAttributedBody_def extract_body_def structured_text_def rejecting_parser_def

lemma example_rows:
  "select_messages example_src 0 1000 =
     [\<lparr> message_id = 1, row_text = Some (js ''hi there''), attributedBody = None, row_date = 10, chat_id = 1 \<rparr>,
      \<lparr> message_id = 2, row_text = None,
        attributedBody = Some (nsStringMarker @ [PLUS_BYTE, 0x07] @ map of_char ''call me'' @ [END_MARKER]),
        row_date = 20, chat_id = 1 \<rparr>,
      \<lparr> message_id = 3, row_text = Some [], attributedBody = None, row_date = 30, chat_id = 2 \<rparr>]"
  by (simp add: example_src_def store_defs)

lemma example_fault_free:
  "indexNewMessages rejecting_parser None example_src 1000 fresh_conn =
     (Inr 3,
      \<lparr> current =
          \<lparr> message_text =
              [\<lparr> e_message_id = 1, e_text = js ''hi there'', e_date = 10, e_chat_id = 1 \<rparr>,
               \<lparr> e_message_id = 2, e_text = js ''call me'', e_date = 20, e_chat_id = 1 \<rparr>],
            last_message_id = Some 3 \<rparr>,
        snapshot = None \<rparr>)"
  by (simp add: fresh_conn_def example_src_def store_defs indexer_defs extractor_defs)

lemma example_fault_2:
  "indexNewMessages rejecting_parser (Some 2) example_src 1000 fresh_conn = (Inl SqliteError, fresh_conn)"
  by (simp add: fresh_conn_def example_src_def store_defs indexer_defs extractor_defs)

subsection \<open>The cursor\<close>

lemma batch_max_eq_Max:
  assumes "msgs \<noteq> []" "\<forall>m \<in> set msgs. message_id m > l"
  shows "batch_max msgs l = Max (message_id ` set msgs)"
proof (rule sym, rule Max_eqI)
  show "finite (message_id ` set msgs)" by simp
  show "y \<le> batch_max msgs l" if "y \<in> message_id ` set msgs" for y
    using that batch_max_mem by auto
  from assms(1) obtain m where m: "m \<in> set msgs" using hd_in_set by blast
  with assms(2) have "l < message_id m" by blast
  also have "message_id m \<le> batch_max msgs l" using m by (rule batch_max_mem)
  finally have "batch_max msgs l \<noteq> l" by simp
  with batch_max_cases[of msgs l] show "batch_max msgs l \<in> message_id ` set msgs"
    by auto
qed

lemma indexNewMessages_cursor:
  assumes "indexNewMessages P fault src batchSize c = (r, c')"
  shows "getLastIndexedId c \<le> getLastIndexedId c'"
proof -
  define messages where "messages = select_messages src (getLastIndexedId c) batchSize"
  from indexNewMessages_cases[OF assms messages_def]
  have "c' = c \<or> c' = post_batch P messages c" by blast
  then show ?thesis
    using batch_max_ge[of "getLastIndexedId c" messages] by auto
qed

lemma cursor_trace_lower:
  "y \<in> set (cursor_trace P calls c) \<Longrightarrow> getLastIndexedId c \<le> y"
proof (induction calls arbitrary: c)
  case Nil
  then show ?case by simp
next
  case (Cons call calls)
  obtain fault src batchSize where call: "call = (fault, src, batchSize)"
    by (cases call)
  let ?c1 = "snd (indexNewMessages P fault src batchSize c)"
  have step: "getLastIndexedId c \<le> getLastIndexedId ?c1"
    using indexNewMessages_cursor[of P fault src batchSize c] by (simp add: prod_eq_iff)
  from Cons.prems call consider "y = getLastIndexedId c" | "y \<in> set (cursor_trace P calls ?c1)"
    by auto
  then show ?case
  proof cases
    case 1
    then show ?thesis by simp
  next
    case 2
    from Cons.IH[OF this] step show ?thesis by simp
  qed
qed

lemma cursor_trace_sorted: "sorted (cursor_trace P calls c)"
proof (induction calls arbitrary: c)
  case Nil
  then show ?case by simp
next
  case (Cons call calls)
  obtain fault src batchSize where call: "call = (fault, src, batchSize)"
    by (cases call)
  let ?c1 = "snd (indexNewMessages P fault src batchSize c)"
  have step: "getLastIndexedId c \<le> getLastIndexedId ?c1"
    using indexNewMessages_cursor[of P fault src batchSize c] by (simp add: prod_eq_iff)
  have "\<forall>y \<in> set (cursor_trace P calls ?c1). getLastIndexedId c \<le> y"
    using cursor_trace_lower[of _ P calls ?c1] step by force
  with Cons.IH[of ?c1] call show ?case by simp
qed

lemma buildIndex_loop_cursor:
  "getLastIndexedId c \<le> getLastIndexedId (snd (buildIndex_loop P faults src batch tot c))"
proof (induction P faults src batch tot c rule: buildIndex_loop.induct)
  case (1 P faults src batch tot c)
  obtain r1 c1 where step: "indexNewMessages P (faults batch) src 5000 c = (r1, c1)"
    by (cases "indexNewMessages P (faults batch) src 5000 c")
  have le: "getLastIndexedId c \<le> getLastIndexedId c1"
    using step by (rule indexNewMessages_cursor)
  show ?case
  proof (cases r1)
    case (Inl e)
    with step le show ?thesis
      by (simp add: buildIndex_loop.simps[of P faults src batch tot c])
  next
    case (Inr indexed)
    show ?thesis
    proof (cases "indexed < 5000")
      case True
      with Inr step le show ?thesis
        by (simp add: buildIndex_loop.simps[of P faults src batch tot c])
    next
      case False
      from "1.IH"[OF step[symmetric] Inr False] le Inr step False show ?thesis
        by (simp add: buildIndex_loop.simps[of P faults src batch tot c])
    qed
  qed
qed

text \<open>
  Claim C3. For every sequence of \<open>indexNewMessages\<close> calls, with any batch sizes, any
  faults and any source store at each call, the persisted cursor is non-decreasing: the
  list of its values over the sequence is sorted. A single call never lowers the cursor:
  a call that indexed rows sets it to the maximum identifier of its batch, which lies
  above the previous cursor, and a call that fails or finds no row leaves it as it is.
  \<open>buildIndex\<close>, the other operation that writes the cursor, does not lower it either.
\<close>

theorem cursor_monotonic:
  "sorted (cursor_trace parseBuffer calls c)
   \<and> (indexNewMessages parseBuffer fault src batchSize c = (r, c') \<longrightarrow>
        getLastIndexedId c \<le> getLastIndexedId c'
        \<and> (\<forall>n. r = Inr n \<and> n > 0 \<longrightarrow>
             getLastIndexedId c < getLastIndexedId c'
             \<and> getLastIndexedId c'
                 = Max (message_id ` set (select_messages src (getLastIndexedId c) batchSize)))
        \<and> (r = Inr 0 \<or> (\<exists>e. r = Inl e) \<longrightarrow> getLastIndexedId c' = getLastIndexedId c))
   \<and> getLastIndexedId c \<le> getLastIndexedId (snd (buildIndex parseBuffer faults src c))"
proof -
  have 1: "sorted (cursor_trace parseBuffer calls c)"
    by (rule cursor_trace_sorted)
  have 2: "getLastIndexedId c \<le> getLastIndexedId c'
        \<and> (\<forall>n. r = Inr n \<and> n > 0 \<longrightarrow>
             getLastIndexedId c < getLastIndexedId c'
             \<and> getLastIndexedId c'
                 = Max (message_id ` set (select_messages src (getLastIndexedId c) batchSize)))
        \<and> (r = Inr 0 \<or> (\<exists>e. r = Inl e) \<longrightarrow> getLastIndexedId c' = getLastIndexedId c)"
    if run: "indexNewMessages parseBuffer fault src batchSize c = (r, c')"
  proof -
    define messages where "messages = select_messages src (getLastIndexedId c) batchSize"
    note cases = indexNewMessages_cases[OF run messages_def]
    have above: "\<forall>m \<in> set messages. message_id m > getLastIndexedId c"
      using select_messages_mem messages_def by blast
    have a: "getLastIndexedId c \<le> getLastIndexedId c'"
      using run by (rule indexNewMessages_cursor)
    have b: "getLastIndexedId c < getLastIndexedId c'
             \<and> getLastIndexedId c'
                 = Max (message_id ` set (select_messages src (getLastIndexedId c) batchSize))"
      if n: "r = Inr n \<and> n > 0" for n
    proof -
      from cases n have ne: "messages \<noteq> []" and c': "c' = post_batch parseBuffer messages c"
        by auto
      from ne obtain m where m: "m \<in> set messages" using hd_in_set by blast
      with above have "getLastIndexedId c < message_id m" by blast
      also have "message_id m \<le> batch_max messages (getLastIndexedId c)"
        using m by (rule batch_max_mem)
      finally have "getLastIndexedId c < getLastIndexedId c'"
        using c' by simp
      with batch_max_eq_Max[OF ne above] c' show ?thesis
        by (simp add: messages_def)
    qed
    have c: "getLastIndexedId c' = getLastIndexedId c" if "r = Inr 0 \<or> (\<exists>e. r = Inl e)"
      using cases that by auto
    from a b c show ?thesis by blast
  qed
  have 3: "getLastIndexedId c \<le> getLastIndexedId (snd (buildIndex parseBuffer faults src c))"
    by (simp add: buildIndex_def buildIndex_loop_cursor)
  from 1 2 3 show ?thesis by blast
qed

text \<open>
  Four calls with batch size 1 on two rows, the second of them failing at its insert,
  and the single batch of the example.
\<close>

theorem cursor_monotonic_witness:
  "cursor_trace rejecting_parser
      [(None, two_rows, 1), (Some 1, two_rows, 1), (None, two_rows, 1), (None, two_rows, 1)]
      fresh_conn = [0, 1, 1, 2, 2]
   \<and> indexNewMessages rejecting_parser None example_src 1000 fresh_conn = (Inr 3, example_index)
   \<and> getLastIndexedId fresh_conn = 0
   \<and> getLastIndexedId example_index = 3
   \<and> Max (message_id ` set (select_messages example_src 0 1000)) = 3"
proof -
  have t: "cursor_trace rejecting_parser
      [(None, two_rows, 1), (Some 1, two_rows, 1), (None, two_rows, 1), (None, two_rows, 1)]
      fresh_conn = [0, 1, 1, 2, 2]"
    by (simp add: fresh_conn_def two_rows_def store_defs indexer_defs extractor_defs)
  have r: "indexNewMessages rejecting_parser None example_src 1000 fresh_conn = (Inr 3, example_index)"
    by (simp add: example_fault_free example_index_def)
  have g: "getLastIndexedId fresh_conn = 0" "getLastIndexedId example_index = 3"
    by (simp_all add: getLastIndexedId_def fresh_conn_def example_index_def)
  from cursor_monotonic[of rejecting_parser
      "[(None, two_rows, 1), (Some 1, two_rows, 1), (None, two_rows, 1), (None, two_rows, 1)]"
      fresh_conn None example_src 1000 "Inr 3" example_index "\<lambda>b. None"] t r g
  show ?thesis by simp
qed

subsection \<open>Atomic batches\<close>

text \<open>
  Claim C2. Whatever statement of the batch fails, a call of \<open>indexNewMessages\<close> ends in
  one of two ways. Either it throws, and the connection is exactly as before the call:
  the entries and the cursor of the rollback, no transaction open. Or it returns the
  number of rows, and the connection is that of the run without a fault: unchanged when
  there was nothing to index, otherwise \<open>post_batch\<close>, with every row of the batch written
  and the cursor at the maximum identifier. No state in between is left behind.
\<close>

theorem batch_atomicity:
  assumes "indexNewMessages parseBuffer fault src batchSize c = (r, c')"
  shows "(\<exists>e. r = Inl e \<and> c' = c)
       \<or> (\<exists>n. r = Inr n
             \<and> indexNewMessages parseBuffer None src batchSize c = (Inr n, c')
             \<and> (n = 0 \<and> c' = c
                \<or> n > 0 \<and> c' = post_batch parseBuffer
                                 (select_messages src (getLastIndexedId c) batchSize) c))"
proof -
  define messages where "messages = select_messages src (getLastIndexedId c) batchSize"
  from indexNewMessages_cases[OF assms messages_def]
  consider "messages = []" "r = Inr 0" "c' = c"
    | e where "r = Inl e" "c' = c"
    | "messages \<noteq> []" "snapshot c = None" "r = Inr (length messages)"
      "c' = post_batch parseBuffer messages c"
    by auto
  then show ?thesis
  proof cases
    case 1
    then have "indexNewMessages parseBuffer None src batchSize c = (Inr 0, c)"
      by (simp add: indexNewMessages_def messages_def)
    with 1 show ?thesis by simp
  next
    case 2
    then show ?thesis by simp
  next
    case 3
    from indexNewMessages_no_fault[OF 3(2) messages_def 3(1)] 3 show ?thesis
      by (simp add: messages_def)
  qed
qed

text \<open>
  On the example, a failure of the second insert leaves the empty index, although the
  \<open>try\<close> block had written the first entry before the rollback; a fault that never
  fires gives the run without a fault.
\<close>

theorem batch_atomicity_witness:
  "indexNewMessages rejecting_parser (Some 2) example_src 1000 fresh_conn
     = (Inl SqliteError, fresh_conn)
   \<and> message_text (current (snd (try_block rejecting_parser (Some 2)
        (select_messages example_src 0 1000) 0
        (fresh_conn\<lparr>snapshot := Some (current fresh_conn)\<rparr>))))
     = [\<lparr> e_message_id = 1, e_text = js ''hi there'', e_date = 10, e_chat_id = 1 \<rparr>]
   \<and> indexNewMessages rejecting_parser (Some 5) example_src 1000 fresh_conn
     = indexNewMessages rejecting_parser None example_src 1000 fresh_conn
   \<and> snd (indexNewMessages rejecting_parser None example_src 1000 fresh_conn)
     = post_batch rejecting_parser (select_messages example_src 0 1000) fresh_conn"
proof -
  have a: "indexNewMessages rejecting_parser (Some 2) example_src 1000 fresh_conn
     = (Inl SqliteError, fresh_conn)"
    by (rule example_fault_2)
  have b: "message_text (current (snd (try_block rejecting_parser (Some 2)
        (select_messages example_src 0 1000) 0
        (fresh_conn\<lparr>snapshot := Some (current fresh_conn)\<rparr>))))
     = [\<lparr> e_message_id = 1, e_text = js ''hi there'', e_date = 10, e_chat_id = 1 \<rparr>]"
    by (simp add: example_rows) (simp add: fresh_conn_def indexer_defs extractor_defs)
  have c: "indexNewMessages rejecting_parser (Some 5) example_src 1000 fresh_conn
     = (Inr 3, snd (indexNewMessages rejecting_parser None example_src 1000 fresh_conn))"
    by (simp add: example_fault_free)
      (simp add: fresh_conn_def example_src_def store_defs indexer_defs extractor_defs)
  have g: "getLastIndexedId fresh_conn = 0"
    by (simp add: getLastIndexedId_def fresh_conn_def)
  from batch_atomicity[OF c] batch_atomicity[OF a] a b c g show ?thesis
    by (auto simp: example_fault_free)
qed

subsection \<open>Calling again\<close>





subsection \<open>The resolver of the indexer and \<open>getMessageText\<close>\<close>

lemma js_trim_Nil [simp]: "js_trim [] = []"
  by (simp add: js_trim_def)

text \<open>
  Claim C4, as amended. The indexer stores what \<open>getMessageText\<close> resolves, trimmed,
  for every row without a blob and for every row whose plain text is absent or does not
  trim to exactly one code unit. It uses the plain text when that trims to at least two
  code units, and consults the extractor when the row has a blob and the plain text is
  absent or trims to fewer than two code units.
\<close>

theorem resolve_text_agrees:
  "(attributedBody msg = None \<or> (case row_text msg of None \<Rightarrow> True | Some s \<Rightarrow> length (js_trim s) \<noteq> 1)
      \<longrightarrow> stored_text parseBuffer msg = resolver_stored parseBuffer msg)
   \<and> (row_text msg = Some s \<and> length (js_trim s) \<ge> 2
      \<longrightarrow> resolve_text parseBuffer msg = Inr (Some s) \<and> getMessageText parseBuffer msg = Inr (Some s))
   \<and> ((row_text msg = None \<or> row_text msg = Some s \<and> length (js_trim s) < 2)
        \<and> attributedBody msg = Some blob
      \<longrightarrow> resolve_text parseBuffer msg = extractTextFromAttributedBody parseBuffer (Some blob))"
proof -
  have agree: "stored_text parseBuffer msg = resolver_stored parseBuffer msg"
    if a: "attributedBody msg = None \<or> (case row_text msg of None \<Rightarrow> True | Some s \<Rightarrow> length (js_trim s) \<noteq> 1)"
  proof (cases "row_text msg")
    case None
    then show ?thesis
      by (simp add: stored_text_def resolver_stored_def resolve_text_def getMessageText_def
          text_to_store_def)
  next
    case (Some s)
    show ?thesis
    proof (cases "js_trim s = []")
      case True
      with Some show ?thesis
        by (simp add: stored_text_def resolver_stored_def resolve_text_def getMessageText_def
            text_to_store_def)
    next
      case False
      then have "s \<noteq> []" by auto
      moreover have "\<not> length (js_trim s) < 2" if "length (js_trim s) \<noteq> 1"
        using that False by (cases "js_trim s") auto
      ultimately show ?thesis
        using Some a False
        by (auto simp: stored_text_def resolver_stored_def resolve_text_def getMessageText_def
            text_to_store_def)
    qed
  qed
  have plain: "resolve_text parseBuffer msg = Inr (Some s) \<and> getMessageText parseBuffer msg = Inr (Some s)"
    if a: "row_text msg = Some s \<and> length (js_trim s) \<ge> 2"
  proof -
    from a have "s \<noteq> []" "js_trim s \<noteq> []" by auto
    with a show ?thesis
      by (simp add: resolve_text_def getMessageText_def)
  qed
  have blob: "resolve_text parseBuffer msg = extractTextFromAttributedBody parseBuffer (Some blob)"
    if "(row_text msg = None \<or> row_text msg = Some s \<and> length (js_trim s) < 2)
        \<and> attributedBody msg = Some blob"
    using that by (auto simp: resolve_text_def)
  from agree plain blob show ?thesis by blast
qed

theorem resolve_text_agrees_witness:
  "length (js_trim (js ''ok'')) \<noteq> 1
   \<and> stored_text rejecting_parser two_letter_row = Some (js ''ok'')
   \<and> resolver_stored rejecting_parser two_letter_row = Some (js ''ok'')
   \<and> resolve_text rejecting_parser two_letter_row = Inr (Some (js ''ok''))
   \<and> resolve_text rejecting_parser one_letter_row
       = extractTextFromAttributedBody rejecting_parser (Some [0x00])"
proof -
  have l: "length (js_trim (js ''ok'')) = 2" "length (js_trim (js ''k'')) = 1"
    by (simp_all add: js_trim_def js_def isWhiteSpace_def)
  from resolve_text_agrees[of two_letter_row rejecting_parser "js ''ok''" "[0x00]"]
    resolve_text_agrees[of one_letter_row rejecting_parser "js ''k''" "[0x00]"] l
  show ?thesis
    by (simp add: two_letter_row_def one_letter_row_def)
      (simp add: stored_text_def resolver_stored_def text_to_store_def js_def js_trim_def
        isWhiteSpace_def)
qed

lemma one_letter_row_texts:
  "getMessageText rejecting_parser one_letter_row = Inr (Some (js ''k''))
   \<and> resolver_stored rejecting_parser one_letter_row = Some (js ''k'')
   \<and> resolve_text rejecting_parser one_letter_row = Inr None
   \<and> stored_text rejecting_parser one_letter_row = None"
  by (simp add: one_letter_row_def resolver_stored_def stored_text_def getMessageText_def
      resolve_text_def text_to_store_def extract_fallback structured_text_rejecting)
     (simp add: extractor_defs text_to_store_def)

text \<open>
  The claim as stated fails for a one-letter text with a blob: \<open>getMessageText\<close> returns
  the letter, the indexer asks the extractor, which finds nothing, and stores no entry.
\<close>

theorem resolve_text_counterexample:
  "getMessageText rejecting_parser one_letter_row = Inr (Some (js ''k''))
   \<and> resolver_stored rejecting_parser one_letter_row = Some (js ''k'')
   \<and> resolve_text rejecting_parser one_letter_row = Inr None
   \<and> stored_text rejecting_parser one_letter_row = None"
  by (rule one_letter_row_texts)

subsection \<open>Completeness after \<open>buildIndex\<close>\<close>



lemma post_batch_snapshot [simp]: "snapshot (post_batch P messages c) = None"
  by (simp add: post_batch_def)







section \<open>Verification: the query engine\<close>

subsection \<open>The scan: cap, order, matches\<close>

lemma collect_chat_ids_no_fault:
  assumes "\<forall>call. \<not> fails env call"
  shows "fst (collect_chat_ids env contactIds acc log) = Some (acc @ resolve_filter env contactIds)"
  using assms
proof (induction contactIds arbitrary: acc log)
  case Nil
  then show ?case by (simp add: resolve_filter_def)
next
  case (Cons contactId rest)
  show ?case
  proof (cases "contactGroupMap env contactId")
    case None
    with Cons.IH[OF Cons.prems, of acc log] show ?thesis
      by (simp add: resolve_filter_def)
  next
    case (Some identifiers)
    with Cons.IH[OF Cons.prems, of "acc @ chat_ids_of (chat env) identifiers" "log @ [ChatIdsOf identifiers]"]
      Cons.prems show ?thesis
      by (simp add: resolve_filter_def)
  qed
qed


text \<open>The slice of a page: for a page and a page size of at least 1 it is the range
  from \<open>(page - 1) * limit\<close> to \<open>page * limit\<close>.\<close>

lemma js_slice_page:
  assumes "1 \<le> page" "1 \<le> limit"
  shows "js_slice xs ((page - 1) * limit) ((page - 1) * limit + limit)
         = take (nat limit) (drop (nat ((page - 1) * limit)) xs)"
proof -
  let ?o = "(page - 1) * limit" and ?n = "int (length xs)"
  have o: "0 \<le> ?o" using assms by simp
  have e: "0 \<le> ?o + limit" using o assms by simp
  show ?thesis
  proof (cases "?o \<le> ?n")
    case True
    then have k: "min ?o ?n = ?o" by simp
    have "take (nat (min (?o + limit) ?n - ?o)) (drop (nat ?o) xs) = take (nat limit) (drop (nat ?o) xs)"
    proof (cases "?o + limit \<le> ?n")
      case True
      then show ?thesis by simp
    next
      case False
      then have "nat (?n - ?o) \<le> nat limit" by simp
      moreover have "length (drop (nat ?o) xs) = nat (?n - ?o)"
        using o by (simp add: nat_diff_distrib')
      ultimately show ?thesis using False by simp
    qed
    with o e k show ?thesis
      by (simp add: js_slice_def Let_def not_less)
  next
    case False
    then have "drop (nat ?o) xs = []" using o by simp
    moreover from False have "min ?o ?n = ?n" by simp
    ultimately show ?thesis using o e
      by (simp add: js_slice_def Let_def not_less)
  qed
qed

lemma length_sql_limit: "0 \<le> n \<Longrightarrow> length (sql_limit n xs) \<le> nat n"
  by (simp add: sql_limit_def)

lemma searchIndex_total: "length (searchIndex db query MAX_SEARCH_SCAN_LIMIT) \<le> 10000"
  using length_sql_limit[of MAX_SEARCH_SCAN_LIMIT] by (simp add: searchIndex_def MAX_SEARCH_SCAN_LIMIT_def)

lemma sorted_sql_limit: "sorted (map f xs) \<Longrightarrow> sorted (map f (sql_limit n xs))"
  by (simp add: sql_limit_def sorted_wrt_take take_map[symmetric] del: take_map)

lemma searchIndex_ordered: "sorted (map (\<lambda>e. - e_date e) (searchIndex db query limit))"
  unfolding searchIndex_def by (rule sorted_sql_limit) (rule sorted_sort_key)

lemma searchIndex_matches:
  "e \<in> set (searchIndex db query limit) \<Longrightarrow>
   e \<in> set (message_text db) \<and> sql_like (e_text e) (js ''%'' @ query @ js ''%'')"
  using set_sql_limit[of limit] by (fastforce simp: searchIndex_def)

lemma like_percent_only: "like_match [0x25] t"
  by (induction t) simp_all

lemma like_percent_suffix:
  "like_match (0x25 # ps) t \<longleftrightarrow> (\<exists>pre s. t = pre @ s \<and> like_match ps s)"
proof (induction t)
  case Nil
  then show ?case by simp
next
  case (Cons c cs)
  have "like_match (0x25 # ps) (c # cs) \<longleftrightarrow> like_match ps (c # cs) \<or> like_match (0x25 # ps) cs"
    by simp
  also have "\<dots> \<longleftrightarrow> like_match ps (c # cs) \<or> (\<exists>pre s. cs = pre @ s \<and> like_match ps s)"
    using Cons.IH by simp
  also have "\<dots> \<longleftrightarrow> (\<exists>pre s. c # cs = pre @ s \<and> like_match ps s)"
  proof
    assume "like_match ps (c # cs) \<or> (\<exists>pre s. cs = pre @ s \<and> like_match ps s)"
    then show "\<exists>pre s. c # cs = pre @ s \<and> like_match ps s"
    proof
      assume "like_match ps (c # cs)"
      then have "c # cs = [] @ (c # cs) \<and> like_match ps (c # cs)" by simp
      then show ?thesis by blast
    next
      assume "\<exists>pre s. cs = pre @ s \<and> like_match ps s"
      then obtain pre s where "cs = pre @ s" "like_match ps s" by blast
      then have "c # cs = (c # pre) @ s \<and> like_match ps s" by simp
      then show ?thesis by blast
    qed
  next
    assume "\<exists>pre s. c # cs = pre @ s \<and> like_match ps s"
    then obtain pre s where ps: "c # cs = pre @ s" "like_match ps s" by blast
    show "like_match ps (c # cs) \<or> (\<exists>pre s. cs = pre @ s \<and> like_match ps s)"
    proof (cases pre)
      case Nil
      with ps show ?thesis by simp
    next
      case (Cons a pre')
      with ps have "cs = pre' @ s" by simp
      with ps(2) show ?thesis by blast
    qed
  qed
  finally show ?case .
qed

lemma like_literal_prefix:
  assumes "0x25 \<notin> set q" "0x5F \<notin> set q"
  shows "like_match (q @ [0x25]) s \<longleftrightarrow>
         (\<exists>m post. s = m @ post \<and> map ascii_lower m = map ascii_lower q)"
  using assms
proof (induction q arbitrary: s)
  case Nil
  then show ?case by (simp add: like_percent_only del: like_match.simps)
next
  case (Cons p ps)
  then have p: "p \<noteq> 0x25" "p \<noteq> 0x5F" and rest: "0x25 \<notin> set ps" "0x5F \<notin> set ps"
    by auto
  show ?case
  proof (cases s)
    case Nil
    with p show ?thesis by simp
  next
    case (Cons c cs)
    have "like_match ((p # ps) @ [0x25]) (c # cs) \<longleftrightarrow>
          ascii_lower p = ascii_lower c \<and> like_match (ps @ [0x25]) cs"
      using p by simp
    also have "\<dots> \<longleftrightarrow> ascii_lower p = ascii_lower c \<and>
          (\<exists>m post. cs = m @ post \<and> map ascii_lower m = map ascii_lower ps)"
      using Cons.IH[OF rest] by simp
    also have "\<dots> \<longleftrightarrow> (\<exists>m post. c # cs = m @ post \<and> map ascii_lower m = map ascii_lower (p # ps))"
    proof
      assume "ascii_lower p = ascii_lower c \<and>
          (\<exists>m post. cs = m @ post \<and> map ascii_lower m = map ascii_lower ps)"
      then obtain m post where "ascii_lower p = ascii_lower c" "cs = m @ post"
        "map ascii_lower m = map ascii_lower ps" by blast
      then have "c # cs = (c # m) @ post \<and> map ascii_lower (c # m) = map ascii_lower (p # ps)"
        by simp
      then show "\<exists>m post. c # cs = m @ post \<and> map ascii_lower m = map ascii_lower (p # ps)"
        by blast
    next
      assume "\<exists>m post. c # cs = m @ post \<and> map ascii_lower m = map ascii_lower (p # ps)"
      then obtain m post where mp: "c # cs = m @ post" "map ascii_lower m = map ascii_lower (p # ps)"
        by blast
      from mp(2) obtain a m' where m: "m = a # m'" by (cases m) auto
      with mp have "a = c" "cs = m' @ post" "ascii_lower a = ascii_lower p"
        "map ascii_lower m' = map ascii_lower ps" by simp_all
      then show "ascii_lower p = ascii_lower c \<and>
          (\<exists>m post. cs = m @ post \<and> map ascii_lower m = map ascii_lower ps)"
        by auto
    qed
    finally show ?thesis using Cons by simp
  qed
qed

text \<open>
  For a query without \<open>%\<close> and \<open>_\<close> the pattern \<^verbatim>\<open>%query%\<close> matches exactly the texts
  that contain the query up to the case of ASCII letters.
\<close>

lemma like_substring:
  assumes "0x25 \<notin> set q" "0x5F \<notin> set q"
  shows "like_match (0x25 # q @ [0x25]) t \<longleftrightarrow>
         (\<exists>pre m post. t = pre @ m @ post \<and> map ascii_lower m = map ascii_lower q)"
  by (simp only: like_percent_suffix like_literal_prefix[OF assms]) blast

lemma code_points_append_ascii:
  "code_points (js ''%'' @ s) = 0x25 # code_points s"
  by (cases s) (simp_all add: js_def)

lemma code_points_percent_cons: "code_points (0x25 # q) = 0x25 # code_points q"
  by (cases q) simp_all

lemma code_points_snoc_percent: "code_points (q @ [0x25]) = code_points q @ [0x25]"
  by (induction q rule: code_points.induct) simp_all

lemma pattern_code_points:
  "code_points (js ''%'' @ query @ js ''%'') = 0x25 # code_points query @ [0x25]"
proof -
  have "js ''%'' = [0x25]" by (simp add: js_def)
  then show ?thesis
    by (simp add: code_points_percent_cons code_points_snoc_percent del: code_points.simps)
qed

lemma c_string_id: "0 \<notin> set cs \<Longrightarrow> c_string cs = cs"
  by (induction cs) (simp_all add: c_string_def)

lemma c_string_prefix: "\<exists>rest. cs = c_string cs @ rest"
  by (metis c_string_def takeWhile_dropWhile_id)

text \<open>
  Every row \<open>searchIndex\<close> returns for a query without \<open>%\<close>, \<open>_\<close> and U+0000 contains the
  query, up to the case of ASCII letters, in the part of its text before the first
  U+0000.
\<close>

lemma searchIndex_substring:
  assumes "0x25 \<notin> set (code_points query)" "0x5F \<notin> set (code_points query)"
      and "0 \<notin> set (code_points query)"
      and "e \<in> set (searchIndex db query limit)"
  shows "\<exists>pre m post. c_string (code_points (e_text e)) = pre @ m @ post
           \<and> map ascii_lower m = map ascii_lower (code_points query)"
proof -
  have "c_string (0x25 # code_points query @ [0x25]) = 0x25 # code_points query @ [0x25]"
    using assms(3) by (intro c_string_id) simp
  with searchIndex_matches[OF assms(4)]
  have "like_match (0x25 # code_points query @ [0x25]) (c_string (code_points (e_text e)))"
    by (simp add: sql_like_def pattern_code_points del: like_match.simps)
  with like_substring[OF assms(1,2)] show ?thesis by blast
qed

subsection \<open>The route without failing queries\<close>

lemma search_route_no_fault:
  assumes "js_trim query \<noteq> []" "\<forall>call. \<not> fails env call"
  shows "fst (search_route env (Some query) limit_param page_param contactIds) =
     (let limit = (case limit_param of
                     None \<Rightarrow> DEFAULT_SEARCH_PAGE_SIZE
                   | Some n \<Rightarrow> if n = 0 then DEFAULT_SEARCH_PAGE_SIZE else n);
          page = (case page_param of None \<Rightarrow> 1 | Some n \<Rightarrow> if n = 0 then 1 else n);
          indexMatches = searchIndex (index env) query MAX_SEARCH_SCAN_LIMIT;
          allowedChatIds = resolve_filter env contactIds;
          filteredMatches =
            (if contactIds \<noteq> [] \<and> allowedChatIds \<noteq> []
             then filter (\<lambda>m. e_chat_id m \<in> set allowedChatIds) indexMatches
             else indexMatches)
      in Json \<lparr> j_results = map (enrich env)
                               (js_slice filteredMatches ((page - 1) * limit) ((page - 1) * limit + limit)),
                 j_page = page, j_limit = limit, j_total = length filteredMatches \<rparr>)"
proof -
  obtain r log where c: "collect_chat_ids env contactIds [] [IndexSearch query MAX_SEARCH_SCAN_LIMIT] = (r, log)"
    by (cases "collect_chat_ids env contactIds [] [IndexSearch query MAX_SEARCH_SCAN_LIMIT]")
  with collect_chat_ids_no_fault[OF assms(2), of contactIds "[]" "[IndexSearch query MAX_SEARCH_SCAN_LIMIT]"]
  have r: "r = Some (resolve_filter env contactIds)" by simp
  show ?thesis
    using assms c r by (simp add: search_route_def Let_def list_ex_iff)
qed


lemma sorted_js_slice:
  assumes "sorted (map f xs)"
  shows "sorted (map f (js_slice xs a b))"
proof -
  have "sorted (map f (take n (drop k xs)))" for n k
    using assms by (simp add: sorted_wrt_take sorted_wrt_drop take_map[symmetric] drop_map[symmetric]
        del: take_map drop_map)
  then show ?thesis by (simp add: js_slice_def Let_def)
qed

lemma sorted_filter_map: "sorted (map f xs) \<Longrightarrow> sorted (map f (filter P xs))"
  by (induction xs) auto

lemma convertMacTime_mono: "a \<le> b \<Longrightarrow> convertMacTime a \<le> convertMacTime b"
  by (simp add: convertMacTime_def zdiv_mono1)

text \<open>
  The route, for a non-blank query and without a failing statement: the total does not
  exceed the cap of the scan, and the results are in the order of the scan, the newest
  first.
\<close>

lemma search_route_cap_and_order:
  assumes "js_trim query \<noteq> []" "\<forall>call. \<not> fails env call"
      and "fst (search_route env (Some query) limit_param page_param contactIds) = Json j"
  shows "j_total j \<le> 10000 \<and> sorted (map (\<lambda>r. - r_date r) (j_results j))"
proof -
  let ?matches = "searchIndex (index env) query MAX_SEARCH_SCAN_LIMIT"
  let ?allowed = "resolve_filter env contactIds"
  let ?filtered = "if contactIds \<noteq> [] \<and> ?allowed \<noteq> []
                   then filter (\<lambda>m. e_chat_id m \<in> set ?allowed) ?matches else ?matches"
  have "length (filter P ?matches) \<le> 10000" for P
    by (rule order_trans[OF length_filter_le searchIndex_total])
  then have len: "length ?filtered \<le> 10000"
    using searchIndex_total[of "index env" query] by simp
  have "sorted (map (\<lambda>e. - e_date e) ?filtered)"
    using searchIndex_ordered[of "index env" query MAX_SEARCH_SCAN_LIMIT]
    by (simp add: sorted_filter_map)
  then have s: "sorted (map (\<lambda>e. - e_date e) (js_slice ?filtered a b))" for a b
    by (rule sorted_js_slice)
  have mono: "sorted (map (\<lambda>r. - r_date r) (map (enrich env) ys))"
    if "sorted (map (\<lambda>e. - e_date e) ys)" for ys
    using that
  proof (induction ys)
    case Nil
    then show ?case by simp
  next
    case (Cons y ys)
    then show ?case
      by (auto simp: enrich_def dest!: convertMacTime_mono)
  qed
  from assms(3) len mono[OF s] show ?thesis
    by (auto simp: search_route_no_fault[OF assms(1,2)] Let_def)
qed

text \<open>Forty-five matches and a page size of 20: page 1 has 20 rows, page 3 has 5.\<close>

lemma pagination_example:
  assumes "length xs = 45"
  shows "length (js_slice xs ((1 - 1) * 20) ((1 - 1) * 20 + 20)) = 20
       \<and> length (js_slice xs ((3 - 1) * 20) ((3 - 1) * 20 + 20)) = 5"
  using assms by (simp add: js_slice_def Let_def)

subsection \<open>The examples, evaluated\<close>

lemmas search_defs =
  search_route_def searchIndex_def sql_like_def c_string_def sql_limit_def js_slice_def enrich_def
  contact_of_chat_def chat_ids_of_def convertMacTime_def MAC_EPOCH_MS_def
  DEFAULT_SEARCH_PAGE_SIZE_def MAX_SEARCH_SCAN_LIMIT_def ascii_lower_def js_def js_trim_def
  isWhiteSpace_def resolve_filter_def Let_def

text \<open>
  The operands of \<open>LIKE\<close> end at U+0000, and rows of equal date come in the order of
  \<open>message_id\<close>, whatever the order in which they were written.
\<close>

lemma sql_like_zero_terminated:
  "\<not> sql_like (js ''ab'' @ [0] @ js ''cd'') (js ''%cd%'')
   \<and> sql_like (js ''ab'') (js ''%b'' @ [0] @ js ''zz%'')"
  by (simp add: sql_like_def c_string_def js_def ascii_lower_def)

lemma searchIndex_ties:
  "map e_message_id
     (searchIndex
        \<lparr> message_text =
            [\<lparr> e_message_id = 2, e_text = js ''hi'', e_date = 5, e_chat_id = 1 \<rparr>,
             \<lparr> e_message_id = 3, e_text = js ''hi'', e_date = 7, e_chat_id = 1 \<rparr>,
             \<lparr> e_message_id = 1, e_text = js ''hi'', e_date = 5, e_chat_id = 1 \<rparr>],
          last_message_id = Some 3 \<rparr>
        (js ''hi'') 10)
   = [3, 1, 2]"
  by (simp add: searchIndex_def sql_like_def c_string_def sql_limit_def js_def ascii_lower_def)




lemma example_underscore:
  "fst (search_route wildcard_example (Some (js ''_'')) None None []) =
     Json \<lparr> j_results =
              [\<lparr> r_message_id = 1, r_text = js ''hi'', conversation_id = 1,
                 contact_identifier = js ''Unknown'', r_date = 978307200000,
                 display_name = js ''Unknown'' \<rparr>],
            j_page = 1, j_limit = 20, j_total = 1 \<rparr>
   \<and> of_char (CHR ''_'') \<notin> set (js ''hi'')"
  by (simp add: wildcard_example_def search_defs)



text \<open>
  Claim C9, at the input where the code departs from it. The query \<open>_\<close> is not blank;
  the pattern \<^verbatim>\<open>%_%\<close> matches every non-empty text, so the route returns the entry \<open>hi\<close>,
  whose text does not contain the query. (For a query without \<open>%\<close>, \<open>_\<close> and U+0000,
  \<open>searchIndex_substring\<close> gives the substring match; \<open>search_route_cap_and_order\<close> and
  \<open>js_slice_page\<close> give the cap, the order and the page.)
\<close>

theorem wildcard_query_result:
  "fst (search_route wildcard_example (Some (js ''_'')) None None []) =
     Json \<lparr> j_results =
              [\<lparr> r_message_id = 1, r_text = js ''hi'', conversation_id = 1,
                 contact_identifier = js ''Unknown'', r_date = 978307200000,
                 display_name = js ''Unknown'' \<rparr>],
            j_page = 1, j_limit = 20, j_total = 1 \<rparr>
   \<and> of_char (CHR ''_'') \<notin> set (js ''hi'')"
  by (rule example_underscore)

text \<open>
  Claim C10. For a query that is absent, empty or made of white space only, the route
  answers at once with the normal result \<open>{results: [], total: 0}\<close> (and the page and the
  limit of the request): it sends no statement to either database, whatever the
  environment and whichever statements would fail.
\<close>

theorem blank_query_fast_path:
  assumes "js_trim (case q of None \<Rightarrow> [] | Some s \<Rightarrow> s) = []"
  shows "search_route env q limit_param page_param contactIds =
           (Json \<lparr> j_results = [],
                   j_page = (case page_param of None \<Rightarrow> 1 | Some n \<Rightarrow> if n = 0 then 1 else n),
                   j_limit = (case limit_param of
                                None \<Rightarrow> DEFAULT_SEARCH_PAGE_SIZE
                              | Some n \<Rightarrow> if n = 0 then DEFAULT_SEARCH_PAGE_SIZE else n),
                   j_total = 0 \<rparr>,
            [])"
  using assms by (simp add: search_route_def Let_def)

theorem blank_query_fast_path_witness:
  "js_trim (js '''') = [] \<and> js_trim (js ''   '') = []
   \<and> search_route search_example (Some (js '''')) None None [] =
       (Json \<lparr> j_results = [], j_page = 1, j_limit = 20, j_total = 0 \<rparr>, [])
   \<and> search_route search_example (Some (js ''   '')) None (Some 2) [js ''A''] =
       (Json \<lparr> j_results = [], j_page = 2, j_limit = 20, j_total = 0 \<rparr>, [])
   \<and> search_route search_example None None None [] =
       (Json \<lparr> j_results = [], j_page = 1, j_limit = 20, j_total = 0 \<rparr>, [])"
proof -
  have t: "js_trim (js '''') = []" "js_trim (js ''   '') = []"
    by (simp_all add: js_trim_def js_def isWhiteSpace_def)
  from blank_query_fast_path[of "Some (js '''')" search_example None None "[]"]
    blank_query_fast_path[of "Some (js ''   '')" search_example None "Some 2" "[js ''A'']"]
    blank_query_fast_path[of None search_example None None "[]"] t
  show ?thesis by (simp add: DEFAULT_SEARCH_PAGE_SIZE_def)
qed

end
